theory Spec2Isabelle
  imports Main
begin

section \<open>Bug bash details: actions, remote calls and saga handlers\<close>

text \<open>
  Modelled from the spec: the enum \<open>LoadStatus\<close> of \<open>Common/Contracts\<close>, whose
  declaration is missing from the sources. Its members are the four the saga file
  compares against (\<open>Loading\<close>, \<open>Updating\<close>, \<open>Ready\<close>, \<open>UpdateFailed\<close>) and the
  two further ones the specification names (\<open>NotLoaded\<close>, \<open>LoadFailed\<close>).
\<close>

datatype LoadStatus = NotLoaded | Loading | Ready | LoadFailed | Updating | UpdateFailed

text \<open>
  A thrown JavaScript \<open>Error\<close>, which is what a rejected promise is taken to carry;
  the handlers read nothing of it but \<open>e.message\<close>.
\<close>

datatype JsError = JsError (message: string)

text \<open>
  The actions of \<open>BugBashDetailActions\<close> that the saga file takes or puts. The type
  \<open>'d\<close> stands for the contract \<open>ILongText\<close>, which the handlers only pass on.
  \<open>BugBashDetailsUpdateRequested\<close> carries the payload
  \<open>{ bugBashDetails, bugBashId }\<close> in that order.
\<close>

datatype 'd BugBashDetailActions =
    BugBashDetailsLoadRequested string
  | beginLoadBugBashDetails string
  | bugBashDetailsLoaded string 'd
  | BugBashDetailsUpdateRequested 'd string
  | beginUpdateBugBashDetails string 'd
  | BugBashDetailsUpdated string 'd
  | BugBashDetailsUpdateFailed string 'd string

text \<open>The two remote functions of \<open>./DataSource\<close>, as the argument lists of \<open>call\<close>.\<close>

datatype 'd RemoteCall =
    fetchBugBashDetailsAsync string
  | addOrUpdateDetailsAsync 'd

text \<open>
  A generator of the saga file, as the tree of effects it yields. \<open>Select i k\<close> is
  \<open>yield select(getBugBashDetailsStatus, i)\<close>, resumed with the status read from
  the store; \<open>Put a k\<close> is \<open>yield put(a)\<close>; \<open>Call c k\<close> is \<open>yield call(...)\<close>,
  which the middleware resumes with the value the promise resolved to (\<open>Inr\<close>) or
  by throwing the rejection into the generator (\<open>Inl\<close>); \<open>Return\<close> is the end of
  the generator, \<open>Throw e\<close> an exception that leaves it uncaught.
\<close>

datatype 'd Saga =
    Select string "LoadStatus \<Rightarrow> 'd Saga"
  | Put "'d BugBashDetailActions" "'d Saga"
  | Call "'d RemoteCall" "JsError + 'd \<Rightarrow> 'd Saga"
  | Return
  | Throw JsError

text \<open>
  \<open>loadBugBashDetails\<close>, from its action's payload. There is no \<open>try\<close> around the
  call: a rejection thrown into the generator leaves it.
\<close>

definition loadBugBashDetails :: "string \<Rightarrow> 'd Saga" where
  "loadBugBashDetails bugBashId =
     Select bugBashId (\<lambda>status.
       if status \<noteq> Loading \<and> status \<noteq> Updating then
         Put (beginLoadBugBashDetails bugBashId)
           (Call (fetchBugBashDetailsAsync bugBashId) (\<lambda>r.
              case r of
                Inr details \<Rightarrow> Put (bugBashDetailsLoaded bugBashId details) Return
              | Inl e \<Rightarrow> Throw e))
       else Return)"

text \<open>
  \<open>updateBugBashDetails\<close>, from the two fields of its action's payload. The call
  stands in a \<open>try\<close> whose \<open>catch\<close> puts the failure action.
\<close>

definition updateBugBashDetails :: "'d \<Rightarrow> string \<Rightarrow> 'd Saga" where
  "updateBugBashDetails bugBashDetails bugBashId =
     Select bugBashId (\<lambda>status.
       if status = Ready \<or> status = UpdateFailed then
         Put (beginUpdateBugBashDetails bugBashId bugBashDetails)
           (Call (addOrUpdateDetailsAsync bugBashDetails) (\<lambda>r.
              case r of
                Inr updatedDetails \<Rightarrow> Put (BugBashDetailsUpdated bugBashId updatedDetails) Return
              | Inl e \<Rightarrow> Put (BugBashDetailsUpdateFailed bugBashId bugBashDetails (message e)) Return))
       else Return)"

text \<open>
  \<open>bugBashDetailsSaga\<close>: the two \<open>takeEvery\<close> watchers, as the handler forked for a
  dispatched action (none for an action of another type).
\<close>

fun bugBashDetailsSaga :: "'d BugBashDetailActions \<Rightarrow> 'd Saga option" where
  "bugBashDetailsSaga (BugBashDetailsLoadRequested bugBashId) = Some (loadBugBashDetails bugBashId)"
| "bugBashDetailsSaga (BugBashDetailsUpdateRequested bugBashDetails bugBashId) =
     Some (updateBugBashDetails bugBashDetails bugBashId)"
| "bugBashDetailsSaga _ = None"

subsection \<open>Running a generator against the store\<close>

text \<open>
  The store is a parameter: \<open>reducer\<close> is the root reducer and
  \<open>getBugBashDetailsStatus\<close> the selector of \<open>./Selectors\<close>, neither of which is among
  the sources. \<open>advance\<close> runs a generator until it blocks on a \<open>call\<close>, returns or
  throws: a \<open>select\<close> reads the current store, a \<open>put\<close> sends its action through the
  reducer (a total function: a reducer does not throw). The result is the store
  reached, the actions put in order, and what is left of the generator.
\<close>

primrec advance ::
  "('s \<Rightarrow> 'd BugBashDetailActions \<Rightarrow> 's) \<Rightarrow> ('s \<Rightarrow> string \<Rightarrow> LoadStatus) \<Rightarrow>
   'd Saga \<Rightarrow> 's \<Rightarrow> 's \<times> 'd BugBashDetailActions list \<times> 'd Saga" where
  "advance reducer getBugBashDetailsStatus (Select bugBashId k) s =
     advance reducer getBugBashDetailsStatus (k (getBugBashDetailsStatus s bugBashId)) s"
| "advance reducer getBugBashDetailsStatus (Put a k) s =
     (case advance reducer getBugBashDetailsStatus k (reducer s a) of
        (s', puts, rest) \<Rightarrow> (s', a # puts, rest))"
| "advance reducer getBugBashDetailsStatus (Call c k) s = (s, [], Call c k)"
| "advance reducer getBugBashDetailsStatus Return s = (s, [], Return)"
| "advance reducer getBugBashDetailsStatus (Throw e) s = (s, [], Throw e)"

text \<open>Settling the promise a generator is blocked on resumes it with the outcome.\<close>

fun settle :: "'d Saga \<Rightarrow> JsError + 'd \<Rightarrow> 'd Saga" where
  "settle (Call c k) r = k r"
| "settle t r = t"

text \<open>
  One handler from start to end when its remote call, if it makes one, settles with
  \<open>outcome\<close>: the store reached, every action put, and what is left.
\<close>

definition runHandler ::
  "('s \<Rightarrow> 'd BugBashDetailActions \<Rightarrow> 's) \<Rightarrow> ('s \<Rightarrow> string \<Rightarrow> LoadStatus) \<Rightarrow>
   'd Saga \<Rightarrow> JsError + 'd \<Rightarrow> 's \<Rightarrow> 's \<times> 'd BugBashDetailActions list \<times> 'd Saga" where
  "runHandler reducer getBugBashDetailsStatus h outcome s =
     (case advance reducer getBugBashDetailsStatus h s of
        (s1, puts1, t1) \<Rightarrow>
          (case advance reducer getBugBashDetailsStatus (settle t1 outcome) s1 of
             (s2, puts2, t2) \<Rightarrow> (s2, puts1 @ puts2, t2)))"

subsection \<open>The saga runtime: forked handlers and calls in flight\<close>

text \<open>
  The middleware, as far as the two watchers are concerned. \<open>store\<close> is the store's
  state; \<open>tasks\<close> are the forked handlers blocked on a remote call, each with the
  action that forked it; \<open>dispatched\<close> is every action that reached the reducer, in
  order; \<open>uncaught\<close> is the error that left a handler, if one did. An error that
  leaves a forked handler aborts the watcher that forked it and the root saga above,
  which cancels the handlers still blocked; from then on no handler is forked.
\<close>

record ('s, 'd) Runtime =
  store :: 's
  tasks :: "('d BugBashDetailActions \<times> 'd Saga) list"
  dispatched :: "'d BugBashDetailActions list"
  uncaught :: "JsError option"

text \<open>
  What happens from outside: an action is dispatched, or the promise of the \<open>n\<close>-th
  blocked handler settles (resolved \<open>Inr\<close>, rejected \<open>Inl\<close>).
\<close>

datatype 'd Event = Dispatch "'d BugBashDetailActions" | Settle nat "JsError + 'd"

text \<open>
  Book-keeping once a handler forked by \<open>origin\<close> has been advanced: the actions it
  put are logged, and the handler is kept if it blocks, dropped if it returned, and
  aborts the root saga if it threw.
\<close>

definition finish ::
  "'d BugBashDetailActions \<Rightarrow> 's \<times> 'd BugBashDetailActions list \<times> 'd Saga \<Rightarrow>
   ('s, 'd) Runtime \<Rightarrow> ('s, 'd) Runtime" where
  "finish origin res rt =
     (case res of (s', puts, rest) \<Rightarrow>
        (case rest of
           Call c k \<Rightarrow>
             rt\<lparr>store := s', tasks := tasks rt @ [(origin, rest)],
                dispatched := dispatched rt @ puts\<rparr>
         | Throw e \<Rightarrow>
             rt\<lparr>store := s', tasks := [], dispatched := dispatched rt @ puts,
                uncaught := Some e\<rparr>
         | _ \<Rightarrow> rt\<lparr>store := s', dispatched := dispatched rt @ puts\<rparr>))"

text \<open>
  One event. A dispatched action goes through the reducer first and then to the
  watchers; a settled promise resumes its handler, which leaves the list of blocked
  handlers. Settling a promise that is not there changes nothing.
\<close>

fun step ::
  "('s \<Rightarrow> 'd BugBashDetailActions \<Rightarrow> 's) \<Rightarrow> ('s \<Rightarrow> string \<Rightarrow> LoadStatus) \<Rightarrow>
   ('s, 'd) Runtime \<Rightarrow> 'd Event \<Rightarrow> ('s, 'd) Runtime" where
  "step reducer getBugBashDetailsStatus rt (Dispatch a) =
     (let rt1 = rt\<lparr>store := reducer (store rt) a, dispatched := dispatched rt @ [a]\<rparr> in
      case uncaught rt of
        Some e \<Rightarrow> rt1
      | None \<Rightarrow>
          (case bugBashDetailsSaga a of
             None \<Rightarrow> rt1
           | Some h \<Rightarrow> finish a (advance reducer getBugBashDetailsStatus h (store rt1)) rt1))"
| "step reducer getBugBashDetailsStatus rt (Settle n r) =
     (if n < length (tasks rt) then
        (case tasks rt ! n of
           (origin, t) \<Rightarrow>
             let rt1 = rt\<lparr>tasks := take n (tasks rt) @ drop (Suc n) (tasks rt)\<rparr> in
             finish origin (advance reducer getBugBashDetailsStatus (settle t r) (store rt1)) rt1)
      else rt)"

definition run ::
  "('s \<Rightarrow> 'd BugBashDetailActions \<Rightarrow> 's) \<Rightarrow> ('s \<Rightarrow> string \<Rightarrow> LoadStatus) \<Rightarrow>
   'd Event list \<Rightarrow> ('s, 'd) Runtime \<Rightarrow> ('s, 'd) Runtime" where
  "run reducer getBugBashDetailsStatus evs rt = foldl (step reducer getBugBashDetailsStatus) rt evs"

text \<open>The runtime before anything was dispatched.\<close>

definition startup :: "'s \<Rightarrow> ('s, 'd) Runtime" where
  "startup s = \<lparr>store = s, tasks = [], dispatched = [], uncaught = None\<rparr>"

text \<open>The bug bash an action is about.\<close>

fun bugBashIdOf :: "'d BugBashDetailActions \<Rightarrow> string" where
  "bugBashIdOf (BugBashDetailsLoadRequested i) = i"
| "bugBashIdOf (beginLoadBugBashDetails i) = i"
| "bugBashIdOf (bugBashDetailsLoaded i d) = i"
| "bugBashIdOf (BugBashDetailsUpdateRequested d i) = i"
| "bugBashIdOf (beginUpdateBugBashDetails i d) = i"
| "bugBashIdOf (BugBashDetailsUpdated i d) = i"
| "bugBashIdOf (BugBashDetailsUpdateFailed i d m) = i"

text \<open>
  The remote calls in flight: for every blocked handler the bug bash of the action
  that forked it and the call it waits for.
\<close>

definition inFlight :: "('s, 'd) Runtime \<Rightarrow> (string \<times> 'd RemoteCall) list" where
  "inFlight rt =
     concat (map (\<lambda>(origin, t). case t of Call c k \<Rightarrow> [(bugBashIdOf origin, c)] | _ \<Rightarrow> [])
       (tasks rt))"

text \<open>
  The components of the application dispatch the two request actions; the other
  actions of the module are put by the handlers only.
\<close>

fun isRequest :: "'d Event \<Rightarrow> bool" where
  "isRequest (Dispatch (BugBashDetailsLoadRequested i)) = True"
| "isRequest (Dispatch (BugBashDetailsUpdateRequested d i)) = True"
| "isRequest (Dispatch a) = False"
| "isRequest (Settle n r) = True"

text \<open>
  What the single-flight argument needs of the reducer and the selector, which are
  parameters here: \<open>beginLoadBugBashDetails\<close> and \<open>beginUpdateBugBashDetails\<close> set the
  status of their bug bash to \<open>Loading\<close> and \<open>Updating\<close>, the two request actions
  change no status, and no action changes the status of a bug bash other than its own.
\<close>

definition tracksStatus ::
  "('s \<Rightarrow> 'd BugBashDetailActions \<Rightarrow> 's) \<Rightarrow> ('s \<Rightarrow> string \<Rightarrow> LoadStatus) \<Rightarrow> bool" where
  "tracksStatus reducer getBugBashDetailsStatus =
     ((\<forall>s i. getBugBashDetailsStatus (reducer s (beginLoadBugBashDetails i)) i = Loading) \<and>
      (\<forall>s i d. getBugBashDetailsStatus (reducer s (beginUpdateBugBashDetails i d)) i = Updating) \<and>
      (\<forall>s i j. getBugBashDetailsStatus (reducer s (BugBashDetailsLoadRequested i)) j =
                 getBugBashDetailsStatus s j) \<and>
      (\<forall>s d i j. getBugBashDetailsStatus (reducer s (BugBashDetailsUpdateRequested d i)) j =
                 getBugBashDetailsStatus s j) \<and>
      (\<forall>s a j. j \<noteq> bugBashIdOf a \<longrightarrow>
                 getBugBashDetailsStatus (reducer s a) j = getBugBashDetailsStatus s j))"

text \<open>
  Modelled from the spec: the reducer of the bug bash details and the selector
  \<open>getBugBashDetailsStatus\<close> are missing from the sources. For running the model on
  concrete inputs, the store is the map from bug bash ids to statuses, the begin
  actions set \<open>Loading\<close> and \<open>Updating\<close>, the success actions \<open>Ready\<close>, the failure
  action \<open>UpdateFailed\<close>, and the selector looks the id up.
\<close>

fun statusReducer :: "(string \<Rightarrow> LoadStatus) \<Rightarrow> 'd BugBashDetailActions \<Rightarrow> string \<Rightarrow> LoadStatus" where
  "statusReducer s (BugBashDetailsLoadRequested i) = s"
| "statusReducer s (beginLoadBugBashDetails i) = s(i := Loading)"
| "statusReducer s (bugBashDetailsLoaded i d) = s(i := Ready)"
| "statusReducer s (BugBashDetailsUpdateRequested d i) = s"
| "statusReducer s (beginUpdateBugBashDetails i d) = s(i := Updating)"
| "statusReducer s (BugBashDetailsUpdated i d) = s(i := Ready)"
| "statusReducer s (BugBashDetailsUpdateFailed i d m) = s(i := UpdateFailed)"

definition statusOf :: "(string \<Rightarrow> LoadStatus) \<Rightarrow> string \<Rightarrow> LoadStatus" where
  "statusOf s i = s i"

text \<open>
  A handler as it stands once it is past its guard and blocked on its call: the
  generator advanced over a store whose every status passes both guards.
\<close>

definition awaiting :: "'d Saga \<Rightarrow> 'd Saga" where
  "awaiting h = snd (snd (advance (\<lambda>s a. s) (\<lambda>s i. Ready) h ()))"

text \<open>The status a bug bash has while the handler forked by a request is blocked.\<close>

fun flightStatus :: "'d BugBashDetailActions \<Rightarrow> LoadStatus" where
  "flightStatus (BugBashDetailsUpdateRequested d i) = Updating"
| "flightStatus a = Loading"

text \<open>
  The invariant of the runtime: the blocked handlers belong to different bug bashes,
  and each is a handler of its request, blocked on its call, while the status of its
  bug bash says so.
\<close>

definition singleFlight ::
  "('s \<Rightarrow> string \<Rightarrow> LoadStatus) \<Rightarrow> ('s, 'd) Runtime \<Rightarrow> bool" where
  "singleFlight getBugBashDetailsStatus rt =
     (distinct (map (bugBashIdOf \<circ> fst) (tasks rt)) \<and>
      (\<forall>(origin, t) \<in> set (tasks rt).
         (\<exists>h. bugBashDetailsSaga origin = Some h \<and> t = awaiting h) \<and>
         getBugBashDetailsStatus (store rt) (bugBashIdOf origin) = flightStatus origin))"

section \<open>The identity service wrapper\<close>

text \<open>
  A promise, by how it ends: fulfilled with a value, rejected with an error, or never
  settled.
\<close>

datatype 'a Promise = Fulfilled 'a | Rejected JsError | Pending

text \<open>
  \<open>p.then(f)\<close> for a callback that returns a promise (\<open>thenPromise\<close>, the result is
  flattened) and for one that returns a plain value (\<open>thenValue\<close>).
\<close>

fun thenPromise :: "'a Promise \<Rightarrow> ('a \<Rightarrow> 'b Promise) \<Rightarrow> 'b Promise" where
  "thenPromise (Fulfilled x) f = f x"
| "thenPromise (Rejected e) f = Rejected e"
| "thenPromise Pending f = Pending"

fun thenValue :: "'a Promise \<Rightarrow> ('a \<Rightarrow> 'b) \<Rightarrow> 'b Promise" where
  "thenValue (Fulfilled x) f = Fulfilled (f x)"
| "thenValue (Rejected e) f = Rejected e"
| "thenValue Pending f = Pending"

record IIdentity =
  entityId :: string
  entityType :: string
  originDirectory :: string
  originId :: string

record IdentitiesGetConnectionsResponseModel =
  successors :: "IIdentity list option"
  managers :: "IIdentity list option"
  directReports :: "IIdentity list option"

text \<open>
  The host's service, as what each method answers. An optional parameter is an
  \<open>option\<close> (\<open>None\<close> is \<open>undefined\<close>); \<open>options\<close> is opaque. The callback
  \<open>filterIdentity\<close> of \<open>searchIdentitiesAsync\<close> is never passed by this file and is
  left out.
\<close>

record IVssIdentityService =
  getIdentityMruAsync :: "IIdentity list Promise"
  searchIdentitiesAsync ::
    "string \<Rightarrow> string list option \<Rightarrow> string list option \<Rightarrow> string option \<Rightarrow> unit option \<Rightarrow>
     IIdentity list Promise"
  addMruIdentitiesAsync :: "IIdentity list \<Rightarrow> bool Promise"
  removeMruIdentitiesAsync :: "IIdentity list \<Rightarrow> bool Promise"
  getConnections :: "IIdentity \<Rightarrow> bool option \<Rightarrow> IdentitiesGetConnectionsResponseModel Promise"

text \<open>
  \<open>PeoplePickerProvider\<close>: its one field is the promise of the service that the
  constructor takes from \<open>getIdentityService()\<close>.
\<close>

record PeoplePickerProvider =
  identityService :: "IVssIdentityService Promise"

definition addIdentitiesToMRU :: "PeoplePickerProvider \<Rightarrow> IIdentity list \<Rightarrow> bool Promise" where
  "addIdentitiesToMRU this identities =
     thenPromise (identityService this) (\<lambda>svc. addMruIdentitiesAsync svc identities)"

text \<open>
  \<open>x[0]\<close> of an empty array is \<open>undefined\<close>: the promise is fulfilled with \<open>None\<close>.
\<close>

definition getEntityFromUniqueAttribute ::
  "PeoplePickerProvider \<Rightarrow> string \<Rightarrow> IIdentity option Promise" where
  "getEntityFromUniqueAttribute this entityId' =
     thenPromise (identityService this) (\<lambda>svc.
       thenValue
         (searchIdentitiesAsync svc entityId' (Some [''user'']) (Some [''ims'', ''source''])
            (Some ''uid'') None)
         (\<lambda>x. case x of [] \<Rightarrow> None | x0 # rest \<Rightarrow> Some x0))"

definition onEmptyInputFocus :: "PeoplePickerProvider \<Rightarrow> IIdentity list Promise" where
  "onEmptyInputFocus this =
     thenPromise (identityService this) (\<lambda>svc.
       thenValue (getIdentityMruAsync svc) (\<lambda>identities. identities))"

text \<open>The private \<open>_onSearchPersona\<close>; its request model holds the query only.\<close>

definition onSearchPersona ::
  "PeoplePickerProvider \<Rightarrow> string \<Rightarrow> IIdentity list \<Rightarrow> IIdentity list Promise" where
  "onSearchPersona this searchText items =
     thenPromise (identityService this) (\<lambda>svc.
       thenValue (searchIdentitiesAsync svc searchText None None None None)
         (\<lambda>identities.
            filter (\<lambda>identity.
                \<not> list_ex (\<lambda>selectedIdentity. entityId selectedIdentity = entityId identity) items)
              identities))"

definition onFilterIdentities ::
  "PeoplePickerProvider \<Rightarrow> string \<Rightarrow> IIdentity list option \<Rightarrow> IIdentity list Promise" where
  "onFilterIdentities this filter' selectedItems =
     onSearchPersona this filter' (case selectedItems of Some items \<Rightarrow> items | None \<Rightarrow> [])"

definition onRequestConnectionInformation ::
  "PeoplePickerProvider \<Rightarrow> IIdentity \<Rightarrow> bool option \<Rightarrow>
   IdentitiesGetConnectionsResponseModel Promise" where
  "onRequestConnectionInformation this entity getDirectReports =
     thenPromise (identityService this) (\<lambda>svc. getConnections svc entity getDirectReports)"

definition removeIdentitiesFromMRU :: "PeoplePickerProvider \<Rightarrow> IIdentity list \<Rightarrow> bool Promise" where
  "removeIdentitiesFromMRU this identities =
     thenPromise (identityService this) (\<lambda>svc. removeMruIdentitiesAsync svc identities)"

text \<open>
  A host service that answers every search and the MRU with the same list, and a
  provider around it, for running the wrapper on concrete inputs.
\<close>

definition exampleIdentity :: "string \<Rightarrow> IIdentity" where
  "exampleIdentity e = \<lparr>entityId = e, entityType = ''user'', originDirectory = ''aad'', originId = e\<rparr>"

definition exampleService :: "IIdentity list \<Rightarrow> IVssIdentityService" where
  "exampleService found =
     \<lparr>getIdentityMruAsync = Fulfilled found,
      searchIdentitiesAsync = (\<lambda>query identityTypes operationScopes queryTypeHint options. Fulfilled found),
      addMruIdentitiesAsync = (\<lambda>identities. Fulfilled True),
      removeMruIdentitiesAsync = (\<lambda>identities. Fulfilled True),
      getConnections = (\<lambda>identity getDirectReports.
        Fulfilled \<lparr>successors = None, managers = None, directReports = None\<rparr>)\<rparr>"

definition exampleProvider :: "IIdentity list \<Rightarrow> PeoplePickerProvider" where
  "exampleProvider found = \<lparr>identityService = Fulfilled (exampleService found)\<rparr>"

section \<open>The header of the bug bash view\<close>

text \<open>
  The three texts of \<open>Resources\<close> the header uses, by their keys, and the three
  members of \<open>Statuses\<close> it spreads into the status properties. \<open>IStatusProps\<close>
  holds the text (here \<open>text'\<close>) and which member of \<open>Statuses\<close> was spread in.
\<close>

datatype Resources = Completed | InProgress | Scheduled

datatype Statuses = Success | Running | Queued

record IStatusProps =
  text' :: Resources
  statusIcon :: Statuses

text \<open>
  \<open>IBugBash\<close>: the header reads its \<open>title\<close>; whatever else it holds is the
  record's extension, which the two helpers may read.
\<close>

record IBugBash =
  title :: string

text \<open>What \<open>onRenderHeaderTitle\<close> renders: the title span and the status.\<close>

record HeaderTitle =
  titleText :: string
  statusProps :: IStatusProps

text \<open>
  \<open>onRenderHeaderTitle\<close>. The helpers \<open>isBugBashCompleted\<close> and
  \<open>isBugBashInProgress\<close> of \<open>BugBashPro/Shared/Helpers\<close> are not among the sources
  and are parameters, as is the clock that \<open>new Date()\<close> reads.
\<close>

definition onRenderHeaderTitle ::
  "('z IBugBash_scheme \<Rightarrow> 't \<Rightarrow> bool) \<Rightarrow> ('z IBugBash_scheme \<Rightarrow> 't \<Rightarrow> bool) \<Rightarrow> 't \<Rightarrow>
   'z IBugBash_scheme \<Rightarrow> HeaderTitle" where
  "onRenderHeaderTitle isBugBashCompleted isBugBashInProgress currentTime bugBash =
     \<lparr>titleText = title bugBash,
      statusProps =
        (if isBugBashCompleted bugBash currentTime then
           \<lparr>text' = Completed, statusIcon = Success\<rparr>
         else if isBugBashInProgress bugBash currentTime then
           \<lparr>text' = InProgress, statusIcon = Running\<rparr>
         else
           \<lparr>text' = Scheduled, statusIcon = Queued\<rparr>)\<rparr>"

section \<open>The cells of the bug bash item table\<close>

text \<open>A JavaScript value, for what the table cell and the reducer pass around.\<close>

datatype JsValue =
    JsUndefined
  | JsNull
  | JsBoolean bool
  | JsNumber int
  | JsString string
  | JsArray "JsValue list"
  | JsObject "(string \<times> JsValue) list"

text \<open>
  Modelled from the spec: the enums \<open>BugBashItemFieldNames\<close> and
  \<open>WorkItemFieldNames\<close> of \<open>../Constants\<close> are missing from the sources. Each has
  the members the cell renderer names and one constructor for every other member. A
  column key is a member of either.
\<close>

datatype BugBashItemFieldNames =
    BugBashItem_Title
  | BugBashItem_Status
  | BugBashItem_TeamId
  | BugBashItem_Other string

datatype WorkItemFieldNames =
    WorkItem_ID
  | WorkItem_Title
  | WorkItem_State
  | WorkItem_WorkItemType
  | WorkItem_Other string

datatype ColumnKey =
    BugBashItemField BugBashItemFieldNames
  | WorkItemField WorkItemFieldNames

text \<open>
  \<open>IBugBashItem\<close>, as the renderer reads it: the properties \<open>id\<close>, \<open>bugBashId\<close>,
  \<open>title\<close> and \<open>workItemId\<close> (\<open>id'\<close> and \<open>title'\<close> here) and the indexed access
  \<open>bugBashItem[key]\<close>. \<open>WorkItem\<close>: its \<open>id\<close> and its dictionary \<open>fields\<close>
  (\<open>wid\<close> and \<open>fields'\<close> here).
\<close>

record IBugBashItem =
  id' :: JsValue
  bugBashId :: string
  title' :: string
  workItemId :: JsValue
  byKey :: "ColumnKey \<Rightarrow> JsValue"

record WorkItem =
  wid :: JsValue
  fields' :: "ColumnKey \<Rightarrow> JsValue"

text \<open>
  What the renderer imports and the sources do not hold: the three helpers of
  \<open>../Helpers\<close>, the table \<open>BugBashItemKeyTypes\<close> of \<open>../Constants\<close> (\<open>None\<close> where
  it has no entry), and the library functions \<open>format\<close> and \<open>ago\<close>, which the
  renderer calls on the value and which may throw. They are parameters of the
  renderer, taken together.
\<close>

record Imported =
  isBugBashItemAccepted :: "IBugBashItem \<Rightarrow> bool"
  isBugBashItemRejected :: "IBugBashItem \<Rightarrow> bool"
  isWorkItemFieldName :: "ColumnKey \<Rightarrow> bool"
  BugBashItemKeyTypes :: "ColumnKey \<Rightarrow> string option"
  format :: "JsValue \<Rightarrow> string \<Rightarrow> JsError + string"
  ago :: "JsValue \<Rightarrow> JsError + string"

text \<open>
  What can leave the renderer instead of a cell: the \<open>TypeError\<close> of reading a
  property of \<open>undefined\<close>, or what a library function threw.
\<close>

datatype RenderError = TypeError | Thrown JsError

text \<open>
  The elements the renderer builds, each with the properties it is given:
  the status icon of \<open>renderStatusCell\<close> (tooltip, icon name, colour),
  \<open>WorkItemTitleView\<close> (work item id, title, work item type name),
  \<open>AsyncLinkComponent\<close> (the bug bash id and item id of the link, the title, the
  click handler), \<open>WorkItemStateView\<close> (state name, work item type name),
  \<open>TeamView\<close>, \<open>IdentityView\<close>, the date tooltip (formatted text and age) and the
  plain text tooltip. \<open>SimpleTableCell\<close> wraps the element; React keys and class
  names are constants of the layout and are left out.
\<close>

datatype 'h Element =
    StatusIcon string string string
  | WorkItemTitleView JsValue JsValue JsValue
  | AsyncLinkComponent string JsValue string 'h
  | WorkItemStateView JsValue JsValue
  | TeamView JsValue
  | IdentityView JsValue
  | DateTooltip string string
  | TextTooltip JsValue

record ('c, 'h) SimpleTableCell =
  columnIndex :: int
  tableColumn :: 'c
  children :: "'h Element"

text \<open>
  A call of the renderer that returns: the cell, and with it the local variable
  \<open>value\<close> as it stood when the cell was built.
\<close>

record ('c, 'h) Rendered =
  cellValue :: JsValue
  cell :: "('c, 'h) SimpleTableCell"

definition renderStatusCell :: "Imported \<Rightarrow> IBugBashItem \<Rightarrow> 'h Element" where
  "renderStatusCell lib bugBashItem =
     (if isBugBashItemAccepted lib bugBashItem then StatusIcon ''Accepted'' ''Accept'' ''#107c10''
      else if isBugBashItemRejected lib bugBashItem then StatusIcon ''Rejected'' ''Cancel'' ''#da0a00''
      else StatusIcon ''Pending'' ''Clock'' ''#666666'')"

text \<open>
  \<open>onRenderBugBashItemCell\<close>. \<open>value\<close> is declared without an initialiser and so is
  \<open>undefined\<close> where no branch assigns it; \<open>acceptedWorkItem\<close> is \<open>None\<close> when it is
  \<open>undefined\<close>. Lines 29 and 32 read the work item under a guard that says it is
  there. The title and state elements read \<open>acceptedWorkItem!.id\<close> and
  \<open>acceptedWorkItem!.fields\<close> under \<open>isAccepted\<close> alone: with no work item that is
  a \<open>TypeError\<close>, and no cell is returned.
\<close>

definition onRenderBugBashItemCell ::
  "Imported \<Rightarrow> int \<Rightarrow> 'c \<Rightarrow> ColumnKey \<Rightarrow> IBugBashItem \<Rightarrow> WorkItem option \<Rightarrow> 'h \<Rightarrow>
   RenderError + ('c, 'h) Rendered" where
  "onRenderBugBashItemCell lib columnIndex' tableColumn' key bugBashItem acceptedWorkItem
       onTitleClick =
     (let isAccepted = isBugBashItemAccepted lib bugBashItem;
          value =
            (if isWorkItemFieldName lib key then
               (if isAccepted \<and> acceptedWorkItem \<noteq> None then
                  (if key = WorkItemField WorkItem_ID then workItemId bugBashItem
                   else (case acceptedWorkItem of
                           Some w \<Rightarrow> fields' w key
                         | None \<Rightarrow> JsUndefined))
                else JsUndefined)
             else if key = BugBashItemField BugBashItem_Title \<and> isAccepted \<and>
                     acceptedWorkItem \<noteq> None then
               (case acceptedWorkItem of
                  Some w \<Rightarrow> fields' w (WorkItemField WorkItem_Title)
                | None \<Rightarrow> JsUndefined)
             else if key \<noteq> BugBashItemField BugBashItem_Status then byKey bugBashItem key
             else JsUndefined);
          innerElement =
            (if key = BugBashItemField BugBashItem_Status then
               Inr (renderStatusCell lib bugBashItem)
             else if key = BugBashItemField BugBashItem_Title then
               (if isAccepted then
                  (case acceptedWorkItem of
                     None \<Rightarrow> Inl TypeError
                   | Some w \<Rightarrow>
                       Inr (WorkItemTitleView (wid w) value
                              (fields' w (WorkItemField WorkItem_WorkItemType))))
                else
                  Inr (AsyncLinkComponent (bugBashId bugBashItem) (id' bugBashItem)
                         (title' bugBashItem) onTitleClick))
             else if key = WorkItemField WorkItem_State \<and> isAccepted then
               (case acceptedWorkItem of
                  None \<Rightarrow> Inl TypeError
                | Some w \<Rightarrow>
                    Inr (WorkItemStateView value (fields' w (WorkItemField WorkItem_WorkItemType))))
             else if key = BugBashItemField BugBashItem_TeamId then Inr (TeamView value)
             else if BugBashItemKeyTypes lib key = Some ''identityRef'' then
               Inr (IdentityView value)
             else if BugBashItemKeyTypes lib key = Some ''date'' then
               (case format lib value ''M/D/YYYY h:mm aa'' of
                  Inl e \<Rightarrow> Inl (Thrown e)
                | Inr formatted \<Rightarrow>
                    (case ago lib value of
                       Inl e \<Rightarrow> Inl (Thrown e)
                     | Inr age \<Rightarrow> Inr (DateTooltip formatted age)))
             else Inr (TextTooltip value))
      in case innerElement of
           Inl e \<Rightarrow> Inl e
         | Inr element \<Rightarrow>
             Inr \<lparr>cellValue = value,
                  cell = \<lparr>columnIndex = columnIndex', tableColumn = tableColumn',
                          children = element\<rparr>\<rparr>)"

text \<open>
  Modelled from the spec: the helpers of \<open>../Helpers\<close>, the table
  \<open>BugBashItemKeyTypes\<close> and the two library functions are missing from the sources.
  For concrete inputs: a key is a work item field name when it is a member of
  \<open>WorkItemFieldNames\<close>; a bug bash item is accepted when it was promoted to a work
  item, that is, when it carries the id of one, and rejected when its \<open>rejected\<close>
  property is true; the table knows the team id only; the library functions return
  fixed texts.
\<close>

definition exampleImported :: Imported where
  "exampleImported =
     \<lparr>isBugBashItemAccepted =
        (\<lambda>bugBashItem. case workItemId bugBashItem of JsNumber n \<Rightarrow> 0 < n | _ \<Rightarrow> False),
      isBugBashItemRejected =
        (\<lambda>bugBashItem.
           byKey bugBashItem (BugBashItemField (BugBashItem_Other ''rejected'')) = JsBoolean True),
      isWorkItemFieldName =
        (\<lambda>key. case key of WorkItemField k \<Rightarrow> True | BugBashItemField k \<Rightarrow> False),
      BugBashItemKeyTypes =
        (\<lambda>key. if key = BugBashItemField BugBashItem_TeamId then Some ''string'' else None),
      format = (\<lambda>value pattern. Inr ''1/1/2020 12:00 am''),
      ago = (\<lambda>value. Inr ''long ago'')\<rparr>"

text \<open>
  Two bug bash items for concrete inputs: one promoted to work item 42, whose title
  differs from the item's own, and one still pending.
\<close>

definition promotedItem :: IBugBashItem where
  "promotedItem =
     \<lparr>id' = JsString ''item-1'', bugBashId = ''bash-1'', title' = ''Crash on save'',
      workItemId = JsNumber 42,
      byKey = (\<lambda>key. if key = BugBashItemField BugBashItem_Title then JsString ''Crash on save''
                      else if key = BugBashItemField BugBashItem_TeamId then JsString ''team-1''
                      else if key = BugBashItemField (BugBashItem_Other ''workItemId'') then JsNumber 42
                      else JsUndefined)\<rparr>"

definition promotedWorkItem :: WorkItem where
  "promotedWorkItem =
     \<lparr>wid = JsNumber 42,
      fields' = (\<lambda>key. if key = WorkItemField WorkItem_Title then JsString ''Bug 42: crash on save''
                        else if key = WorkItemField WorkItem_State then JsString ''Active''
                        else if key = WorkItemField WorkItem_WorkItemType then JsString ''Bug''
                        else if key = WorkItemField WorkItem_ID then JsNumber 42
                        else JsUndefined)\<rparr>"

definition pendingItem :: IBugBashItem where
  "pendingItem =
     \<lparr>id' = JsString ''item-2'', bugBashId = ''bash-1'', title' = ''Typo in dialog'',
      workItemId = JsUndefined,
      byKey = (\<lambda>key. if key = BugBashItemField BugBashItem_Title then JsString ''Typo in dialog''
                      else if key = BugBashItemField BugBashItem_TeamId then JsString ''team-2''
                      else JsUndefined)\<rparr>"

section \<open>The reducer of the active work item\<close>

text \<open>
  Modelled from the spec: \<open>IActiveWorkItemState\<close> of \<open>../Contracts\<close> is missing
  from the sources. It has the nine fields the reducer assigns (\<open>id\<close> and \<open>rev\<close>
  are \<open>id'\<close> and \<open>rev'\<close> here); any further field of the state is the record's
  extension. The payload of \<open>SetActiveWorkItem\<close> is an object with the same nine
  fields.
\<close>

record IActiveWorkItemState =
  id' :: JsValue
  rev' :: JsValue
  isNew :: JsValue
  links :: JsValue
  queryableFields :: JsValue
  sortableFields :: JsValue
  relationTypes :: JsValue
  project :: JsValue
  workItemTypeName :: JsValue

text \<open>
  \<open>ActiveWorkItemActions\<close>: the action the reducer has a case for, and any other
  action the store hands it, by its type.
\<close>

datatype 'p ActiveWorkItemActions =
    SetActiveWorkItem 'p
  | OtherAction string

text \<open>
  \<open>activeWorkItemReducer\<close>. \<open>defaultActiveWorkItemState\<close> is a constant of
  \<open>../Contracts\<close> and a parameter here; \<open>state\<close> is \<open>None\<close> when it is
  \<open>undefined\<close>. \<open>produce\<close> returns its base state with the draft's assignments
  applied.
\<close>

definition activeWorkItemReducer ::
  "'z IActiveWorkItemState_scheme \<Rightarrow> 'z IActiveWorkItemState_scheme option \<Rightarrow>
   ('y IActiveWorkItemState_scheme) ActiveWorkItemActions \<Rightarrow> 'z IActiveWorkItemState_scheme" where
  "activeWorkItemReducer defaultActiveWorkItemState state action =
     (let draft = (case state of Some s \<Rightarrow> s | None \<Rightarrow> defaultActiveWorkItemState) in
      case action of
        SetActiveWorkItem payload \<Rightarrow>
          draft\<lparr>id' := id' payload,
                rev' := rev' payload,
                isNew := isNew payload,
                links := links payload,
                queryableFields := queryableFields payload,
                sortableFields := sortableFields payload,
                relationTypes := relationTypes payload,
                project := project payload,
                workItemTypeName := workItemTypeName payload\<rparr>
      | OtherAction ty \<Rightarrow> draft)"

text \<open>A state and a payload for concrete inputs.\<close>

definition exampleState :: IActiveWorkItemState where
  "exampleState =
     \<lparr>id' = JsNumber 7, rev' = JsNumber 3, isNew = JsBoolean False, links = JsNull,
      queryableFields = JsArray [JsString ''System.Title''], sortableFields = JsArray [],
      relationTypes = JsArray [], project = JsString ''Contoso'',
      workItemTypeName = JsString ''Bug''\<rparr>"

definition examplePayload :: IActiveWorkItemState where
  "examplePayload =
     \<lparr>id' = JsNumber 8, rev' = JsNumber 1, isNew = JsBoolean True, links = JsNull,
      queryableFields = JsArray [], sortableFields = JsArray [JsString ''System.Id''],
      relationTypes = JsArray [JsString ''Related''], project = JsString ''Fabrikam'',
      workItemTypeName = JsString ''Task''\<rparr>"

section \<open>Properties of the saga handlers\<close>

lemma advance_loadBugBashDetails:
  "advance reducer sel (loadBugBashDetails i) s =
     (if sel s i \<noteq> Loading \<and> sel s i \<noteq> Updating
      then (reducer s (beginLoadBugBashDetails i), [beginLoadBugBashDetails i],
            Call (fetchBugBashDetailsAsync i) (\<lambda>r.
              case r of
                Inr details \<Rightarrow> Put (bugBashDetailsLoaded i details) Return
              | Inl e \<Rightarrow> Throw e))
      else (s, [], Return))"
  by (simp add: loadBugBashDetails_def)

lemma advance_updateBugBashDetails:
  "advance reducer sel (updateBugBashDetails d i) s =
     (if sel s i = Ready \<or> sel s i = UpdateFailed
      then (reducer s (beginUpdateBugBashDetails i d), [beginUpdateBugBashDetails i d],
            Call (addOrUpdateDetailsAsync d) (\<lambda>r.
              case r of
                Inr updatedDetails \<Rightarrow> Put (BugBashDetailsUpdated i updatedDetails) Return
              | Inl e \<Rightarrow> Put (BugBashDetailsUpdateFailed i d (message e)) Return))
      else (s, [], Return))"
  by (simp add: updateBugBashDetails_def)

lemma awaiting_load: "awaiting (loadBugBashDetails i) = Call (fetchBugBashDetailsAsync i) (\<lambda>r.
              case r of
                Inr details \<Rightarrow> Put (bugBashDetailsLoaded i details) Return
              | Inl e \<Rightarrow> Throw e)"
  by (simp add: awaiting_def advance_loadBugBashDetails)

lemma awaiting_update: "awaiting (updateBugBashDetails d i) = Call (addOrUpdateDetailsAsync d) (\<lambda>r.
              case r of
                Inr updatedDetails \<Rightarrow> Put (BugBashDetailsUpdated i updatedDetails) Return
              | Inl e \<Rightarrow> Put (BugBashDetailsUpdateFailed i d (message e)) Return)"
  by (simp add: awaiting_def advance_updateBugBashDetails)

lemma remove_nth_distinct:
  assumes "distinct (map f xs)" and "n < length xs"
  shows "distinct (map f (take n xs @ drop (Suc n) xs))"
    and "\<And>x. x \<in> set (take n xs @ drop (Suc n) xs) \<Longrightarrow> x \<in> set xs \<and> f x \<noteq> f (xs ! n)"
proof -
  have split: "xs = take n xs @ (xs ! n) # drop (Suc n) xs"
    using assms(2) by (simp add: id_take_nth_drop)
  have d: "distinct (map f (take n xs @ (xs ! n) # drop (Suc n) xs))"
    using assms(1) split by simp
  from d show "distinct (map f (take n xs @ drop (Suc n) xs))" by auto
  fix x assume x: "x \<in> set (take n xs @ drop (Suc n) xs)"
  have "x \<in> set xs" using x by (auto dest: in_set_takeD in_set_dropD)
  moreover have "f x \<in> f ` set (take n xs) \<union> f ` set (drop (Suc n) xs)"
    using x by auto
  moreover have "f (xs ! n) \<notin> f ` set (take n xs) \<union> f ` set (drop (Suc n) xs)"
    using d by auto
  ultimately show "x \<in> set xs \<and> f x \<noteq> f (xs ! n)" by metis
qed

lemma step_dispatch_load:
  "step reducer sel rt (Dispatch (BugBashDetailsLoadRequested i)) =
     (let s1 = reducer (store rt) (BugBashDetailsLoadRequested i) in
      if uncaught rt = None \<and> sel s1 i \<noteq> Loading \<and> sel s1 i \<noteq> Updating
      then rt\<lparr>store := reducer s1 (beginLoadBugBashDetails i),
              tasks := tasks rt @ [(BugBashDetailsLoadRequested i, awaiting (loadBugBashDetails i))],
              dispatched := dispatched rt @ [BugBashDetailsLoadRequested i, beginLoadBugBashDetails i]\<rparr>
      else rt\<lparr>store := s1, dispatched := dispatched rt @ [BugBashDetailsLoadRequested i]\<rparr>)"
  by (cases "uncaught rt")
     (simp_all add: Let_def advance_loadBugBashDetails finish_def awaiting_load)

lemma step_dispatch_update:
  "step reducer sel rt (Dispatch (BugBashDetailsUpdateRequested d i)) =
     (let s1 = reducer (store rt) (BugBashDetailsUpdateRequested d i) in
      if uncaught rt = None \<and> (sel s1 i = Ready \<or> sel s1 i = UpdateFailed)
      then rt\<lparr>store := reducer s1 (beginUpdateBugBashDetails i d),
              tasks := tasks rt @ [(BugBashDetailsUpdateRequested d i, awaiting (updateBugBashDetails d i))],
              dispatched := dispatched rt @ [BugBashDetailsUpdateRequested d i, beginUpdateBugBashDetails i d]\<rparr>
      else rt\<lparr>store := s1, dispatched := dispatched rt @ [BugBashDetailsUpdateRequested d i]\<rparr>)"
  by (cases "uncaught rt")
     (simp_all add: Let_def advance_updateBugBashDetails finish_def awaiting_update)

lemma busy_status:
  assumes "singleFlight sel rt" and "(origin, t) \<in> set (tasks rt)"
  shows "sel (store rt) (bugBashIdOf origin) = Loading \<or> sel (store rt) (bugBashIdOf origin) = Updating"
proof -
  have "sel (store rt) (bugBashIdOf origin) = flightStatus origin"
    using assms by (auto simp: singleFlight_def)
  then show ?thesis by (cases origin) auto
qed

lemma dispatch_load_singleFlight:
  assumes tr: "tracksStatus reducer sel" and inv: "singleFlight sel rt"
  shows "singleFlight sel (step reducer sel rt (Dispatch (BugBashDetailsLoadRequested i)))"
proof -
  let ?a = "BugBashDetailsLoadRequested i :: 'b BugBashDetailActions"
  have same: "\<And>j. sel (reducer (store rt) ?a) j = sel (store rt) j"
    using tr by (simp add: tracksStatus_def)
  have other: "\<And>s j. j \<noteq> i \<Longrightarrow> sel (reducer s (beginLoadBugBashDetails i)) j = sel s j"
    using tr unfolding tracksStatus_def by (metis bugBashIdOf.simps(2))
  have here: "\<And>s. sel (reducer s (beginLoadBugBashDetails i)) i = Loading"
    using tr by (simp add: tracksStatus_def)
  show ?thesis
  proof (cases "uncaught rt = None \<and> sel (store rt) i \<noteq> Loading \<and> sel (store rt) i \<noteq> Updating")
    case False
    then show ?thesis using inv same
      unfolding step_dispatch_load by (auto simp: singleFlight_def Let_def)
  next
    case True
    have fresh: "\<And>origin t. (origin, t) \<in> set (tasks rt) \<Longrightarrow> bugBashIdOf origin \<noteq> i"
      using busy_status[OF inv] True by blast
    have keep: "\<And>origin t. (origin, t) \<in> set (tasks rt) \<Longrightarrow>
        sel (reducer (reducer (store rt) ?a) (beginLoadBugBashDetails i)) (bugBashIdOf origin)
          = sel (store rt) (bugBashIdOf origin)"
      using fresh other same by simp
    show ?thesis using True inv same here fresh keep
      unfolding step_dispatch_load by (fastforce simp: singleFlight_def Let_def)
  qed
qed

lemma dispatch_update_singleFlight:
  assumes tr: "tracksStatus reducer sel" and inv: "singleFlight sel rt"
  shows "singleFlight sel (step reducer sel rt (Dispatch (BugBashDetailsUpdateRequested d i)))"
proof -
  let ?a = "BugBashDetailsUpdateRequested d i"
  have same: "\<And>j. sel (reducer (store rt) ?a) j = sel (store rt) j"
    using tr by (simp add: tracksStatus_def)
  have other: "\<And>s j. j \<noteq> i \<Longrightarrow> sel (reducer s (beginUpdateBugBashDetails i d)) j = sel s j"
    using tr unfolding tracksStatus_def by (metis bugBashIdOf.simps(5))
  have here: "\<And>s. sel (reducer s (beginUpdateBugBashDetails i d)) i = Updating"
    using tr by (simp add: tracksStatus_def)
  show ?thesis
  proof (cases "uncaught rt = None \<and> (sel (store rt) i = Ready \<or> sel (store rt) i = UpdateFailed)")
    case False
    then show ?thesis using inv same
      unfolding step_dispatch_update by (auto simp: singleFlight_def Let_def)
  next
    case True
    have fresh: "\<And>origin t. (origin, t) \<in> set (tasks rt) \<Longrightarrow> bugBashIdOf origin \<noteq> i"
      using busy_status[OF inv] True by fastforce
    have keep: "\<And>origin t. (origin, t) \<in> set (tasks rt) \<Longrightarrow>
        sel (reducer (reducer (store rt) ?a) (beginUpdateBugBashDetails i d)) (bugBashIdOf origin)
          = sel (store rt) (bugBashIdOf origin)"
      using fresh other same by simp
    show ?thesis using True inv same here fresh keep
      unfolding step_dispatch_update by (fastforce simp: singleFlight_def Let_def)
  qed
qed

lemma finish_one_put:
  "finish origin (reducer s a, [a], Return) rt = rt\<lparr>store := reducer s a, dispatched := dispatched rt @ [a]\<rparr>"
  by (simp add: finish_def)

lemma singleFlight_after_put:
  assumes tr: "tracksStatus reducer sel" and inv: "singleFlight sel rt"
    and n: "n < length (tasks rt)" and a: "bugBashIdOf a = bugBashIdOf (fst (tasks rt ! n))"
  shows "singleFlight sel
           (rt\<lparr>tasks := take n (tasks rt) @ drop (Suc n) (tasks rt),
               store := reducer (store rt) a, dispatched := ds\<rparr>)"
proof -
  let ?rest = "take n (tasks rt) @ drop (Suc n) (tasks rt)"
  have d: "distinct (map (bugBashIdOf \<circ> fst) (tasks rt))"
    using inv by (simp add: singleFlight_def)
  have d': "distinct (map (bugBashIdOf \<circ> fst) ?rest)"
    using remove_nth_distinct(1)[OF d n] .
  have other: "\<And>j. j \<noteq> bugBashIdOf a \<Longrightarrow> sel (reducer (store rt) a) j = sel (store rt) j"
    using tr by (simp add: tracksStatus_def)
  have each: "\<And>origin t. (origin, t) \<in> set ?rest \<Longrightarrow>
      (\<exists>h. bugBashDetailsSaga origin = Some h \<and> t = awaiting h) \<and>
      sel (reducer (store rt) a) (bugBashIdOf origin) = flightStatus origin"
  proof -
    fix origin t assume m: "(origin, t) \<in> set ?rest"
    from remove_nth_distinct(2)[OF d n m]
    have mem: "(origin, t) \<in> set (tasks rt)" and ne: "bugBashIdOf origin \<noteq> bugBashIdOf a"
      using a by simp_all
    from mem inv have "(\<exists>h. bugBashDetailsSaga origin = Some h \<and> t = awaiting h) \<and>
      sel (store rt) (bugBashIdOf origin) = flightStatus origin"
      by (auto simp: singleFlight_def)
    then show "(\<exists>h. bugBashDetailsSaga origin = Some h \<and> t = awaiting h) \<and>
      sel (reducer (store rt) a) (bugBashIdOf origin) = flightStatus origin"
      using other[OF ne] by simp
  qed
  show ?thesis using d' each by (auto simp: singleFlight_def)
qed

lemma settle_singleFlight:
  assumes tr: "tracksStatus reducer sel" and inv: "singleFlight sel rt"
  shows "singleFlight sel (step reducer sel rt (Settle n r))"
proof (cases "n < length (tasks rt)")
  case False
  then show ?thesis using inv by simp
next
  case True
  obtain origin t where nth: "tasks rt ! n = (origin, t)" by (cases "tasks rt ! n")
  have mem: "(origin, t) \<in> set (tasks rt)" using True nth by (metis nth_mem)
  then obtain h where h: "bugBashDetailsSaga origin = Some h" and t: "t = awaiting h"
    using inv by (auto simp: singleFlight_def)
  let ?rt1 = "rt\<lparr>tasks := take n (tasks rt) @ drop (Suc n) (tasks rt)\<rparr>"
  have st: "step reducer sel rt (Settle n r) =
      finish origin (advance reducer sel (settle t r) (store rt)) ?rt1"
    using True nth by (simp add: Let_def)
  have put1: "\<And>a ds. bugBashIdOf a = bugBashIdOf origin \<Longrightarrow> singleFlight sel
           (rt\<lparr>tasks := take n (tasks rt) @ drop (Suc n) (tasks rt),
               store := reducer (store rt) a, dispatched := ds\<rparr>)"
    using singleFlight_after_put[OF tr inv True] nth by simp
  show ?thesis
  proof (cases origin)
    case (BugBashDetailsLoadRequested i)
    then have t': "t = awaiting (loadBugBashDetails i)" using h t by simp
    show ?thesis
    proof (cases r)
      case (Inl e)
      then show ?thesis unfolding st t' awaiting_load
        by (simp add: finish_def singleFlight_def)
    next
      case (Inr details)
      then show ?thesis unfolding st t' awaiting_load
        using put1[of "bugBashDetailsLoaded i details"] BugBashDetailsLoadRequested
        by (simp add: finish_def)
    qed
  next
    case (BugBashDetailsUpdateRequested d i)
    then have t': "t = awaiting (updateBugBashDetails d i)" using h t by simp
    show ?thesis
    proof (cases r)
      case (Inl e)
      then show ?thesis unfolding st t' awaiting_update
        using put1[of "BugBashDetailsUpdateFailed i d (message e)"] BugBashDetailsUpdateRequested
        by (simp add: finish_def)
    next
      case (Inr u)
      then show ?thesis unfolding st t' awaiting_update
        using put1[of "BugBashDetailsUpdated i u"] BugBashDetailsUpdateRequested
        by (simp add: finish_def)
    qed
  qed (use h in simp_all)
qed

lemma step_singleFlight:
  assumes "tracksStatus reducer sel" and "isRequest ev" and "singleFlight sel rt"
  shows "singleFlight sel (step reducer sel rt ev)"
proof (cases ev)
  case (Dispatch a)
  then show ?thesis using assms
    by (cases a) (simp_all add: dispatch_load_singleFlight dispatch_update_singleFlight del: step.simps)
next
  case (Settle n r)
  then show ?thesis using assms settle_singleFlight by blast
qed

lemma run_singleFlight:
  assumes "tracksStatus reducer sel" and "list_all isRequest evs" and "singleFlight sel rt"
  shows "singleFlight sel (run reducer sel evs rt)"
  using assms(2,3) unfolding run_def
  by (induction evs arbitrary: rt) (simp_all add: step_singleFlight[OF assms(1)] del: step.simps)

lemma singleFlight_startup: "singleFlight sel (startup s)"
  by (simp add: singleFlight_def startup_def)

lemma inFlight_entities:
  assumes "singleFlight sel rt"
  shows "map fst (inFlight rt) = map (bugBashIdOf \<circ> fst) (tasks rt)"
proof -
  have "\<forall>(origin, t) \<in> set ts. \<exists>h. bugBashDetailsSaga origin = Some h \<and> t = awaiting h \<Longrightarrow>
    map fst (concat (map (\<lambda>(origin, t). case t of Call c k \<Rightarrow> [(bugBashIdOf origin, c)] | _ \<Rightarrow> []) ts))
      = map (bugBashIdOf \<circ> fst) ts" for ts :: "('b BugBashDetailActions \<times> 'b Saga) list"
  proof (induction ts)
    case Nil
    then show ?case by simp
  next
    case (Cons p ts)
    obtain origin t where p: "p = (origin, t)" by (cases p)
    from Cons.prems p obtain h where h: "bugBashDetailsSaga origin = Some h" "t = awaiting h" by auto
    have "\<exists>c k. t = Call c k"
      using h by (cases origin) (auto simp: awaiting_load awaiting_update)
    then obtain c k where tc: "t = Call c k" by blast
    have "\<forall>(origin, t) \<in> set ts. \<exists>h. bugBashDetailsSaga origin = Some h \<and> t = awaiting h"
      using Cons.prems by simp
    from Cons.IH[OF this] show ?case by (simp add: p tc)
  qed
  note shape = this
  have "\<forall>(origin, t) \<in> set (tasks rt). \<exists>h. bugBashDetailsSaga origin = Some h \<and> t = awaiting h"
    using assms by (auto simp: singleFlight_def)
  from shape[OF this] show ?thesis by (simp add: inFlight_def)
qed

lemma inFlight_status:
  assumes inv: "singleFlight sel rt" and m: "(i, c) \<in> set (inFlight rt)"
  shows "(c = fetchBugBashDetailsAsync i \<and> sel (store rt) i = Loading) \<or>
         ((\<exists>d. c = addOrUpdateDetailsAsync d) \<and> sel (store rt) i = Updating)"
proof -
  from m obtain origin t k where mem: "(origin, t) \<in> set (tasks rt)"
    and t: "t = Call c k" and i: "i = bugBashIdOf origin"
    by (auto simp: inFlight_def split: Saga.splits)
  from inv mem obtain h where h: "bugBashDetailsSaga origin = Some h" "t = awaiting h"
    and st: "sel (store rt) (bugBashIdOf origin) = flightStatus origin"
    by (auto simp: singleFlight_def)
  show ?thesis
  proof (cases origin)
    case (BugBashDetailsLoadRequested j)
    then show ?thesis using h t i st by (auto simp: awaiting_load)
  next
    case (BugBashDetailsUpdateRequested d j)
    then show ?thesis using h t i st by (auto simp: awaiting_update)
  qed (use h in simp_all)
qed

lemma tracksStatus_statusReducer: "tracksStatus statusReducer statusOf"
  unfolding tracksStatus_def statusOf_def
proof (intro conjI allI impI)
  fix s :: "string \<Rightarrow> LoadStatus" and a :: "'a BugBashDetailActions" and j
  assume "j \<noteq> bugBashIdOf a"
  then show "statusReducer s a j = s j" by (cases a) auto
qed simp_all

section \<open>The claims about the bug bash details saga\<close>

text \<open>
  C1. Single-flight loading, guarded by the status: \<open>loadBugBashDetails\<close> puts
  \<open>beginLoadBugBashDetails\<close> and blocks on the call of \<open>fetchBugBashDetailsAsync\<close>
  exactly when the status of its bug bash is neither \<open>Loading\<close> nor \<open>Updating\<close>;
  when it is one of the two, the handler puts no action, leaves the store as it is
  and returns. So, for a reducer that tracks the status and components that dispatch
  the two request actions, whatever is dispatched and however the promises settle, no
  two remote calls are in flight for one bug bash, and a fetch in flight for a bug
  bash is the fetch of that bug bash while its status is \<open>Loading\<close>.
\<close>

theorem loadBugBashDetails_single_flight:
  "(sel s i \<noteq> Loading \<and> sel s i \<noteq> Updating \<longrightarrow>
      (\<exists>k. advance reducer sel (loadBugBashDetails i) s =
         (reducer s (beginLoadBugBashDetails i), [beginLoadBugBashDetails i],
          Call (fetchBugBashDetailsAsync i) k))) \<and>
   (sel s i = Loading \<or> sel s i = Updating \<longrightarrow>
      advance reducer sel (loadBugBashDetails i) s = (s, [], Return)) \<and>
   (tracksStatus reducer sel \<and> list_all isRequest evs \<longrightarrow>
      distinct (map fst (inFlight (run reducer sel evs (startup s0)))) \<and>
      (\<forall>j c. (j, fetchBugBashDetailsAsync c) \<in> set (inFlight (run reducer sel evs (startup s0))) \<longrightarrow>
         c = j \<and> sel (store (run reducer sel evs (startup s0))) j = Loading))"
proof (intro conjI impI)
  assume "sel s i \<noteq> Loading \<and> sel s i \<noteq> Updating"
  then show "\<exists>k. advance reducer sel (loadBugBashDetails i) s =
         (reducer s (beginLoadBugBashDetails i), [beginLoadBugBashDetails i],
          Call (fetchBugBashDetailsAsync i) k)"
    by (simp add: advance_loadBugBashDetails)
next
  assume "sel s i = Loading \<or> sel s i = Updating"
  then show "advance reducer sel (loadBugBashDetails i) s = (s, [], Return)"
    by (auto simp: advance_loadBugBashDetails)
next
  assume a: "tracksStatus reducer sel \<and> list_all isRequest evs"
  let ?rt = "run reducer sel evs (startup s0)"
  have inv: "singleFlight sel ?rt"
    using a by (intro run_singleFlight singleFlight_startup) simp_all
  have "distinct (map (bugBashIdOf \<circ> fst) (tasks ?rt))"
    using inv by (simp add: singleFlight_def)
  then show "distinct (map fst (inFlight ?rt))"
    by (simp only: inFlight_entities[OF inv])
  show "\<forall>j c. (j, fetchBugBashDetailsAsync c) \<in> set (inFlight ?rt) \<longrightarrow>
         c = j \<and> sel (store ?rt) j = Loading"
  proof (intro allI impI)
    fix j c assume "(j, fetchBugBashDetailsAsync c) \<in> set (inFlight ?rt)"
    from inFlight_status[OF inv this] show "c = j \<and> sel (store ?rt) j = Loading" by auto
  qed
qed

text \<open>
  The theorem at a concrete run: two load requests and an update request for
  \<open>b1\<close> and a load request for \<open>b2\<close> leave one fetch in flight for each.
\<close>

theorem loadBugBashDetails_single_flight_witness:
  "tracksStatus (statusReducer :: _ \<Rightarrow> string BugBashDetailActions \<Rightarrow> _) statusOf \<and>
   list_all isRequest
     [Dispatch (BugBashDetailsLoadRequested ''b1''),
      Dispatch (BugBashDetailsLoadRequested ''b1''),
      Dispatch (BugBashDetailsUpdateRequested ''text'' ''b1''),
      Dispatch (BugBashDetailsLoadRequested ''b2'')] \<and>
   inFlight (run statusReducer statusOf
     [Dispatch (BugBashDetailsLoadRequested ''b1''),
      Dispatch (BugBashDetailsLoadRequested ''b1''),
      Dispatch (BugBashDetailsUpdateRequested ''text'' ''b1''),
      Dispatch (BugBashDetailsLoadRequested ''b2'')] (startup (\<lambda>i. NotLoaded)))
     = [(''b1'', fetchBugBashDetailsAsync ''b1''), (''b2'', fetchBugBashDetailsAsync ''b2'')] \<and>
   distinct (map fst (inFlight (run statusReducer statusOf
     [Dispatch (BugBashDetailsLoadRequested ''b1''),
      Dispatch (BugBashDetailsLoadRequested ''b1''),
      Dispatch (BugBashDetailsUpdateRequested ''text'' ''b1''),
      Dispatch (BugBashDetailsLoadRequested ''b2'')] (startup (\<lambda>i. NotLoaded))))) \<and>
   advance statusReducer statusOf (loadBugBashDetails ''b1'') ((\<lambda>i. NotLoaded)(''b1'' := Loading))
     = ((\<lambda>i. NotLoaded)(''b1'' := Loading), [] :: string BugBashDetailActions list, Return)"
proof -
  let ?evs = "[Dispatch (BugBashDetailsLoadRequested ''b1''),
      Dispatch (BugBashDetailsLoadRequested ''b1''),
      Dispatch (BugBashDetailsUpdateRequested ''text'' ''b1''),
      Dispatch (BugBashDetailsLoadRequested ''b2'')] :: string Event list"
  have t: "tracksStatus (statusReducer :: _ \<Rightarrow> string BugBashDetailActions \<Rightarrow> _) statusOf"
    by (rule tracksStatus_statusReducer)
  have r: "list_all isRequest ?evs" by simp
  have e: "inFlight (run statusReducer statusOf ?evs (startup (\<lambda>i. NotLoaded)))
     = [(''b1'', fetchBugBashDetailsAsync ''b1''), (''b2'', fetchBugBashDetailsAsync ''b2'')]"
    by (simp add: run_def startup_def step_dispatch_load step_dispatch_update statusOf_def
        inFlight_def awaiting_load awaiting_update del: step.simps)
  have s: "statusOf ((\<lambda>i. NotLoaded)(''b1'' := Loading)) ''b1'' = Loading"
    by (simp add: statusOf_def)
  note claim = loadBugBashDetails_single_flight
    [of statusOf "(\<lambda>i. NotLoaded)(''b1'' := Loading)" "''b1''" statusReducer ?evs "\<lambda>i. NotLoaded"]
  have d: "distinct (map fst (inFlight (run statusReducer statusOf ?evs (startup (\<lambda>i. NotLoaded)))))"
    using claim [THEN conjunct2, THEN conjunct2, rule_format, OF conjI [OF t r], THEN conjunct1] .
  have a: "advance statusReducer statusOf (loadBugBashDetails ''b1'') ((\<lambda>i. NotLoaded)(''b1'' := Loading))
     = ((\<lambda>i. NotLoaded)(''b1'' := Loading), [] :: string BugBashDetailActions list, Return)"
    using claim [THEN conjunct2, THEN conjunct1, rule_format, OF disjI1 [OF s]] .
  show ?thesis by (intro conjI t r e d a)
qed

text \<open>
  C2. The claim is that a rejection of the remote call is caught in both handlers and
  put into the store as a failure action. \<open>updateBugBashDetails\<close> does so;
  \<open>loadBugBashDetails\<close> has no \<open>try\<close>. At the input below (a load request for \<open>b1\<close>
  whose fetch is rejected with the message \<open>boom\<close>) the error leaves the handler:
  the root saga is aborted with it, the only actions dispatched are the request and
  \<open>beginLoadBugBashDetails\<close>, and the status of \<open>b1\<close> stays \<open>Loading\<close>. The same
  rejection of the update call ends in \<open>BugBashDetailsUpdateFailed\<close> with the message.
\<close>

theorem loadBugBashDetails_rejection_escapes:
  "uncaught (run statusReducer statusOf
       [Dispatch (BugBashDetailsLoadRequested ''b1''), Settle 0 (Inl (JsError ''boom''))]
       (startup (\<lambda>i. NotLoaded))) = Some (JsError ''boom'') \<and>
   dispatched (run statusReducer statusOf
       [Dispatch (BugBashDetailsLoadRequested ''b1''), Settle 0 (Inl (JsError ''boom''))]
       (startup (\<lambda>i. NotLoaded)))
     = [BugBashDetailsLoadRequested ''b1'', beginLoadBugBashDetails ''b1'' :: string BugBashDetailActions] \<and>
   statusOf (store (run statusReducer statusOf
       [Dispatch (BugBashDetailsLoadRequested ''b1''),
        Settle 0 (Inl (JsError ''boom'') :: JsError + string)]
       (startup (\<lambda>i. NotLoaded)))) ''b1'' = Loading \<and>
   snd (runHandler statusReducer statusOf (loadBugBashDetails ''b1'') (Inl (JsError ''boom''))
       (\<lambda>i. NotLoaded))
     = ([beginLoadBugBashDetails ''b1'' :: string BugBashDetailActions], Throw (JsError ''boom'')) \<and>
   snd (runHandler statusReducer statusOf (updateBugBashDetails ''text'' ''b1'') (Inl (JsError ''boom''))
       (\<lambda>i. Ready))
     = ([beginUpdateBugBashDetails ''b1'' ''text'',
         BugBashDetailsUpdateFailed ''b1'' ''text'' ''boom''], Return)"
  by (intro conjI)
     (simp_all add: run_def startup_def statusOf_def finish_def runHandler_def
        loadBugBashDetails_def updateBugBashDetails_def Let_def)

text \<open>
  C3. Whenever \<open>updateBugBashDetails\<close> passes its guard (the status is \<open>Ready\<close> or
  \<open>UpdateFailed\<close>), it puts \<open>beginUpdateBugBashDetails\<close> and blocks on the call;
  when the call returns \<open>u\<close> the one further action put is
  \<open>BugBashDetailsUpdated(bugBashId, u)\<close>, when it throws \<open>e\<close> the one further action
  put is \<open>BugBashDetailsUpdateFailed(bugBashId, bugBashDetails, e.message)\<close>, and the
  handler returns in both cases.
\<close>

theorem updateBugBashDetails_outcome:
  assumes "sel s i = Ready \<or> sel s i = UpdateFailed"
  shows "(\<exists>k. advance reducer sel (updateBugBashDetails d i) s =
            (reducer s (beginUpdateBugBashDetails i d), [beginUpdateBugBashDetails i d],
             Call (addOrUpdateDetailsAsync d) k)) \<and>
         runHandler reducer sel (updateBugBashDetails d i) (Inr u) s =
           (reducer (reducer s (beginUpdateBugBashDetails i d)) (BugBashDetailsUpdated i u),
            [beginUpdateBugBashDetails i d, BugBashDetailsUpdated i u], Return) \<and>
         runHandler reducer sel (updateBugBashDetails d i) (Inl e) s =
           (reducer (reducer s (beginUpdateBugBashDetails i d))
              (BugBashDetailsUpdateFailed i d (message e)),
            [beginUpdateBugBashDetails i d, BugBashDetailsUpdateFailed i d (message e)], Return)"
  using assms by (auto simp: runHandler_def advance_updateBugBashDetails)

text \<open>
  The theorem for a bug bash whose status is \<open>Ready\<close>, with the call fulfilled and
  with the call rejected.
\<close>

theorem updateBugBashDetails_outcome_witness:
  "statusOf (\<lambda>i. Ready) ''b1'' = Ready \<and>
   snd (runHandler statusReducer statusOf (updateBugBashDetails ''new'' ''b1'') (Inr ''saved'') (\<lambda>i. Ready))
     = ([beginUpdateBugBashDetails ''b1'' ''new'', BugBashDetailsUpdated ''b1'' ''saved''], Return) \<and>
   snd (runHandler statusReducer statusOf (updateBugBashDetails ''new'' ''b1'')
          (Inl (JsError ''conflict'')) (\<lambda>i. Ready))
     = ([beginUpdateBugBashDetails ''b1'' ''new'',
         BugBashDetailsUpdateFailed ''b1'' ''new'' ''conflict''], Return)"
proof -
  have g: "statusOf (\<lambda>i. Ready) ''b1'' = Ready \<or> statusOf (\<lambda>i. Ready) ''b1'' = UpdateFailed"
    by (simp add: statusOf_def)
  note claim = updateBugBashDetails_outcome
    [of statusOf "\<lambda>i. Ready" "''b1''" statusReducer "''new''" "''saved''" "JsError ''conflict''", OF g]
  have a: "snd (runHandler statusReducer statusOf (updateBugBashDetails ''new'' ''b1'') (Inr ''saved'') (\<lambda>i. Ready))
     = ([beginUpdateBugBashDetails ''b1'' ''new'', BugBashDetailsUpdated ''b1'' ''saved''], Return)"
    using claim [THEN conjunct2, THEN conjunct1] by simp
  have b: "snd (runHandler statusReducer statusOf (updateBugBashDetails ''new'' ''b1'')
          (Inl (JsError ''conflict'')) (\<lambda>i. Ready))
     = ([beginUpdateBugBashDetails ''b1'' ''new'',
         BugBashDetailsUpdateFailed ''b1'' ''new'' ''conflict''], Return)"
    using claim [THEN conjunct2, THEN conjunct2] by simp
  show ?thesis using a b by (simp add: statusOf_def)
qed

text \<open>
  C4. Single-flight updating, guarded by the status: \<open>updateBugBashDetails\<close> puts
  \<open>beginUpdateBugBashDetails\<close> and blocks on the call of \<open>addOrUpdateDetailsAsync\<close>
  when the status of its bug bash is \<open>Ready\<close> or \<open>UpdateFailed\<close>; for every other
  status it puts no action, leaves the store as it is and returns. So, for a reducer
  that tracks the status and components that dispatch the two request actions, no two
  remote calls are in flight for one bug bash, and an update in flight for a bug bash
  goes with the status \<open>Updating\<close>.
\<close>

theorem updateBugBashDetails_single_flight:
  "(sel s i = Ready \<or> sel s i = UpdateFailed \<longrightarrow>
      (\<exists>k. advance reducer sel (updateBugBashDetails d i) s =
         (reducer s (beginUpdateBugBashDetails i d), [beginUpdateBugBashDetails i d],
          Call (addOrUpdateDetailsAsync d) k))) \<and>
   (sel s i \<noteq> Ready \<and> sel s i \<noteq> UpdateFailed \<longrightarrow>
      advance reducer sel (updateBugBashDetails d i) s = (s, [], Return)) \<and>
   (tracksStatus reducer sel \<and> list_all isRequest evs \<longrightarrow>
      distinct (map fst (inFlight (run reducer sel evs (startup s0)))) \<and>
      (\<forall>j d'. (j, addOrUpdateDetailsAsync d') \<in> set (inFlight (run reducer sel evs (startup s0))) \<longrightarrow>
         sel (store (run reducer sel evs (startup s0))) j = Updating))"
proof (intro conjI impI)
  assume "sel s i = Ready \<or> sel s i = UpdateFailed"
  then show "\<exists>k. advance reducer sel (updateBugBashDetails d i) s =
         (reducer s (beginUpdateBugBashDetails i d), [beginUpdateBugBashDetails i d],
          Call (addOrUpdateDetailsAsync d) k)"
    by (auto simp: advance_updateBugBashDetails)
next
  assume "sel s i \<noteq> Ready \<and> sel s i \<noteq> UpdateFailed"
  then show "advance reducer sel (updateBugBashDetails d i) s = (s, [], Return)"
    by (auto simp: advance_updateBugBashDetails)
next
  assume a: "tracksStatus reducer sel \<and> list_all isRequest evs"
  let ?rt = "run reducer sel evs (startup s0)"
  have inv: "singleFlight sel ?rt"
    using a by (intro run_singleFlight singleFlight_startup) simp_all
  have "distinct (map (bugBashIdOf \<circ> fst) (tasks ?rt))"
    using inv by (simp add: singleFlight_def)
  then show "distinct (map fst (inFlight ?rt))"
    by (simp only: inFlight_entities[OF inv])
  show "\<forall>j d'. (j, addOrUpdateDetailsAsync d') \<in> set (inFlight ?rt) \<longrightarrow>
         sel (store ?rt) j = Updating"
  proof (intro allI impI)
    fix j d' assume "(j, addOrUpdateDetailsAsync d') \<in> set (inFlight ?rt)"
    from inFlight_status[OF inv this] show "sel (store ?rt) j = Updating" by auto
  qed
qed

text \<open>
  The theorem at a concrete run: of two update requests and a load request for
  \<open>b1\<close>, only the first update is in flight.
\<close>

theorem updateBugBashDetails_single_flight_witness:
  "tracksStatus (statusReducer :: _ \<Rightarrow> string BugBashDetailActions \<Rightarrow> _) statusOf \<and>
   list_all isRequest
     [Dispatch (BugBashDetailsUpdateRequested ''new'' ''b1''),
      Dispatch (BugBashDetailsUpdateRequested ''newer'' ''b1''),
      Dispatch (BugBashDetailsLoadRequested ''b1'')] \<and>
   inFlight (run statusReducer statusOf
     [Dispatch (BugBashDetailsUpdateRequested ''new'' ''b1''),
      Dispatch (BugBashDetailsUpdateRequested ''newer'' ''b1''),
      Dispatch (BugBashDetailsLoadRequested ''b1'')] (startup (\<lambda>i. Ready)))
     = [(''b1'', addOrUpdateDetailsAsync ''new'')] \<and>
   distinct (map fst (inFlight (run statusReducer statusOf
     [Dispatch (BugBashDetailsUpdateRequested ''new'' ''b1''),
      Dispatch (BugBashDetailsUpdateRequested ''newer'' ''b1''),
      Dispatch (BugBashDetailsLoadRequested ''b1'')] (startup (\<lambda>i. Ready))))) \<and>
   advance statusReducer statusOf (updateBugBashDetails ''newer'' ''b1'') ((\<lambda>i. Ready)(''b1'' := Updating))
     = ((\<lambda>i. Ready)(''b1'' := Updating), [], Return)"
proof -
  let ?evs = "[Dispatch (BugBashDetailsUpdateRequested ''new'' ''b1''),
      Dispatch (BugBashDetailsUpdateRequested ''newer'' ''b1''),
      Dispatch (BugBashDetailsLoadRequested ''b1'')] :: string Event list"
  have t: "tracksStatus (statusReducer :: _ \<Rightarrow> string BugBashDetailActions \<Rightarrow> _) statusOf"
    by (rule tracksStatus_statusReducer)
  have r: "list_all isRequest ?evs" by simp
  have e: "inFlight (run statusReducer statusOf ?evs (startup (\<lambda>i. Ready)))
     = [(''b1'', addOrUpdateDetailsAsync ''new'')]"
    by (simp add: run_def startup_def step_dispatch_load step_dispatch_update statusOf_def
        inFlight_def awaiting_load awaiting_update del: step.simps)
  have s: "statusOf ((\<lambda>i. Ready)(''b1'' := Updating)) ''b1'' \<noteq> Ready \<and>
           statusOf ((\<lambda>i. Ready)(''b1'' := Updating)) ''b1'' \<noteq> UpdateFailed"
    by (simp add: statusOf_def)
  note claim = updateBugBashDetails_single_flight
    [of statusOf "(\<lambda>i. Ready)(''b1'' := Updating)" "''b1''" statusReducer "''newer''" ?evs "\<lambda>i. Ready"]
  have d: "distinct (map fst (inFlight (run statusReducer statusOf ?evs (startup (\<lambda>i. Ready)))))"
    using claim [THEN conjunct2, THEN conjunct2, rule_format, OF conjI [OF t r], THEN conjunct1] .
  have a: "advance statusReducer statusOf (updateBugBashDetails ''newer'' ''b1'') ((\<lambda>i. Ready)(''b1'' := Updating))
     = ((\<lambda>i. Ready)(''b1'' := Updating), [], Return)"
    using claim [THEN conjunct2, THEN conjunct1, rule_format, OF s] .
  show ?thesis by (intro conjI t r e d a)
qed

section \<open>The claims about the identity service wrapper\<close>

text \<open>
  C5. MRU pass-through: once the service is there, \<open>onEmptyInputFocus\<close> ends as
  \<open>getIdentityMruAsync\<close> of the service ends; when that is fulfilled with a list, the
  result is fulfilled with the same list, element for element.
\<close>

theorem onEmptyInputFocus_pass_through:
  assumes "identityService this = Fulfilled svc"
  shows "onEmptyInputFocus this = getIdentityMruAsync svc \<and>
         (getIdentityMruAsync svc = Fulfilled identities \<longrightarrow>
            onEmptyInputFocus this = Fulfilled identities)"
proof -
  have "thenValue p (\<lambda>x. x) = p" for p :: "IIdentity list Promise"
    by (cases p) simp_all
  then show ?thesis using assms by (simp add: onEmptyInputFocus_def)
qed

text \<open>
  The theorem for a service whose MRU holds two identities.
\<close>

theorem onEmptyInputFocus_pass_through_witness:
  "identityService (exampleProvider [exampleIdentity ''u2'', exampleIdentity ''u1''])
     = Fulfilled (exampleService [exampleIdentity ''u2'', exampleIdentity ''u1'']) \<and>
   onEmptyInputFocus (exampleProvider [exampleIdentity ''u2'', exampleIdentity ''u1''])
     = Fulfilled [exampleIdentity ''u2'', exampleIdentity ''u1'']"
proof -
  have s: "identityService (exampleProvider [exampleIdentity ''u2'', exampleIdentity ''u1''])
     = Fulfilled (exampleService [exampleIdentity ''u2'', exampleIdentity ''u1''])"
    by (simp add: exampleProvider_def)
  have m: "getIdentityMruAsync (exampleService [exampleIdentity ''u2'', exampleIdentity ''u1''])
     = Fulfilled [exampleIdentity ''u2'', exampleIdentity ''u1'']"
    by (simp add: exampleService_def)
  from onEmptyInputFocus_pass_through [OF s, THEN conjunct2, rule_format, OF m] s
  show ?thesis by simp
qed

text \<open>
  C8. \<open>onFilterIdentities\<close> excludes the identities already selected: every
  identity of the list it is fulfilled with has an \<open>entityId\<close> different from that
  of every selected item; and calling it with \<open>selectedItems\<close> undefined gives what
  calling it with the empty list gives.
\<close>

theorem onFilterIdentities_excludes_selected:
  "(onFilterIdentities this filter' selectedItems = Fulfilled suggestions \<longrightarrow>
      (\<forall>identity \<in> set suggestions.
         \<forall>selected \<in> set (case selectedItems of Some items \<Rightarrow> items | None \<Rightarrow> []).
           entityId identity \<noteq> entityId selected)) \<and>
   onFilterIdentities this filter' None = onFilterIdentities this filter' (Some [])"
proof (intro conjI impI)
  let ?items = "case selectedItems of Some items \<Rightarrow> items | None \<Rightarrow> []"
  assume f: "onFilterIdentities this filter' selectedItems = Fulfilled suggestions"
  then obtain svc where svc: "identityService this = Fulfilled svc"
    by (cases "identityService this") (simp_all add: onFilterIdentities_def onSearchPersona_def)
  from f svc obtain found where
    found: "searchIdentitiesAsync svc filter' None None None None = Fulfilled found"
    by (cases "searchIdentitiesAsync svc filter' None None None None")
       (simp_all add: onFilterIdentities_def onSearchPersona_def)
  from f svc found have
    "suggestions = filter (\<lambda>identity.
        \<not> list_ex (\<lambda>selectedIdentity. entityId selectedIdentity = entityId identity) ?items) found"
    by (simp add: onFilterIdentities_def onSearchPersona_def)
  then show "\<forall>identity \<in> set suggestions. \<forall>selected \<in> set ?items.
      entityId identity \<noteq> entityId selected"
    by (auto simp: list_ex_iff)
next
  show "onFilterIdentities this filter' None = onFilterIdentities this filter' (Some [])"
    by (simp add: onFilterIdentities_def)
qed

text \<open>
  The theorem for a search that finds three identities, the second of them
  selected.
\<close>

theorem onFilterIdentities_excludes_selected_witness:
  "onFilterIdentities
     (exampleProvider [exampleIdentity ''u1'', exampleIdentity ''u2'', exampleIdentity ''u3''])
     ''u'' (Some [exampleIdentity ''u2''])
     = Fulfilled [exampleIdentity ''u1'', exampleIdentity ''u3''] \<and>
   list_all (\<lambda>identity. list_all (\<lambda>selected. entityId identity \<noteq> entityId selected)
       [exampleIdentity ''u2''])
     [exampleIdentity ''u1'', exampleIdentity ''u3'']"
proof -
  let ?p = "exampleProvider [exampleIdentity ''u1'', exampleIdentity ''u2'', exampleIdentity ''u3'']"
  have r: "onFilterIdentities ?p ''u'' (Some [exampleIdentity ''u2''])
     = Fulfilled [exampleIdentity ''u1'', exampleIdentity ''u3'']"
    by (simp add: onFilterIdentities_def onSearchPersona_def exampleProvider_def
        exampleService_def exampleIdentity_def)
  from onFilterIdentities_excludes_selected
    [of ?p "''u''" "Some [exampleIdentity ''u2'']" "[exampleIdentity ''u1'', exampleIdentity ''u3'']",
     THEN conjunct1, rule_format, OF r]
  have "\<forall>identity \<in> set [exampleIdentity ''u1'', exampleIdentity ''u3''].
          \<forall>selected \<in> set [exampleIdentity ''u2'']. entityId identity \<noteq> entityId selected"
    by simp
  then show ?thesis using r by (simp add: list_all_iff)
qed

text \<open>
  C10. \<open>getEntityFromUniqueAttribute\<close> is fulfilled with the first element of the
  search result, and with \<open>undefined\<close> (here \<open>None\<close>) when the search is fulfilled
  with the empty list.
\<close>

theorem getEntityFromUniqueAttribute_first_or_undefined:
  assumes "identityService this = Fulfilled svc"
  shows "(searchIdentitiesAsync svc entityId' (Some [''user'']) (Some [''ims'', ''source''])
            (Some ''uid'') None = Fulfilled [] \<longrightarrow>
          getEntityFromUniqueAttribute this entityId' = Fulfilled None) \<and>
         (searchIdentitiesAsync svc entityId' (Some [''user'']) (Some [''ims'', ''source''])
            (Some ''uid'') None = Fulfilled (x # xs) \<longrightarrow>
          getEntityFromUniqueAttribute this entityId' = Fulfilled (Some x))"
  using assms by (simp add: getEntityFromUniqueAttribute_def)

text \<open>
  The theorem for a search that finds nothing and for one that finds two
  identities.
\<close>

theorem getEntityFromUniqueAttribute_first_or_undefined_witness:
  "getEntityFromUniqueAttribute (exampleProvider []) ''u9'' = Fulfilled None \<and>
   getEntityFromUniqueAttribute (exampleProvider [exampleIdentity ''u1'', exampleIdentity ''u2'']) ''u1''
     = Fulfilled (Some (exampleIdentity ''u1''))"
proof -
  have s: "identityService (exampleProvider found) = Fulfilled (exampleService found)" for found
    by (simp add: exampleProvider_def)
  have q: "searchIdentitiesAsync (exampleService found) e (Some [''user''])
      (Some [''ims'', ''source'']) (Some ''uid'') None = Fulfilled found" for found e
    by (simp add: exampleService_def)
  from getEntityFromUniqueAttribute_first_or_undefined [OF s, THEN conjunct1, rule_format, OF q]
  have a: "getEntityFromUniqueAttribute (exampleProvider []) ''u9'' = Fulfilled None" .
  from getEntityFromUniqueAttribute_first_or_undefined [OF s, THEN conjunct2, rule_format, OF q]
  have b: "getEntityFromUniqueAttribute (exampleProvider [exampleIdentity ''u1'', exampleIdentity ''u2'']) ''u1''
     = Fulfilled (Some (exampleIdentity ''u1''))" .
  show ?thesis using a b by simp
qed

section \<open>The claims about the views and the reducer\<close>

text \<open>
  C6. The status of the header: its text is \<open>Completed\<close> exactly when
  \<open>isBugBashCompleted\<close> holds, \<open>InProgress\<close> exactly when that fails and
  \<open>isBugBashInProgress\<close> holds, and \<open>Scheduled\<close> exactly when both fail; the three
  cases exclude each other and leave nothing over.
\<close>

theorem onRenderHeaderTitle_status:
  "(text' (statusProps (onRenderHeaderTitle isBugBashCompleted isBugBashInProgress currentTime bugBash))
      = Completed) = isBugBashCompleted bugBash currentTime \<and>
   (text' (statusProps (onRenderHeaderTitle isBugBashCompleted isBugBashInProgress currentTime bugBash))
      = InProgress) =
     (\<not> isBugBashCompleted bugBash currentTime \<and> isBugBashInProgress bugBash currentTime) \<and>
   (text' (statusProps (onRenderHeaderTitle isBugBashCompleted isBugBashInProgress currentTime bugBash))
      = Scheduled) =
     (\<not> isBugBashCompleted bugBash currentTime \<and> \<not> isBugBashInProgress bugBash currentTime)"
  by (simp add: onRenderHeaderTitle_def)

text \<open>
  The theorem for a bug bash that runs from time 10 to time 20, seen after, during
  and before.
\<close>

theorem onRenderHeaderTitle_status_witness:
  "text' (statusProps (onRenderHeaderTitle
      (\<lambda>b t. snd (IBugBash.more b) < t) (\<lambda>b t. fst (IBugBash.more b) \<le> t \<and> t \<le> snd (IBugBash.more b))
      (25 :: int) \<lparr>title = ''Spring bash'', \<dots> = (10 :: int, 20 :: int)\<rparr>)) = Completed \<and>
   text' (statusProps (onRenderHeaderTitle
      (\<lambda>b t. snd (IBugBash.more b) < t) (\<lambda>b t. fst (IBugBash.more b) \<le> t \<and> t \<le> snd (IBugBash.more b))
      (15 :: int) \<lparr>title = ''Spring bash'', \<dots> = (10 :: int, 20 :: int)\<rparr>)) = InProgress \<and>
   text' (statusProps (onRenderHeaderTitle
      (\<lambda>b t. snd (IBugBash.more b) < t) (\<lambda>b t. fst (IBugBash.more b) \<le> t \<and> t \<le> snd (IBugBash.more b))
      (5 :: int) \<lparr>title = ''Spring bash'', \<dots> = (10 :: int, 20 :: int)\<rparr>)) = Scheduled"
proof -
  let ?c = "\<lambda>(b :: (int \<times> int) IBugBash_scheme) (t :: int). snd (IBugBash.more b) < t"
  let ?p = "\<lambda>(b :: (int \<times> int) IBugBash_scheme) (t :: int).
              fst (IBugBash.more b) \<le> t \<and> t \<le> snd (IBugBash.more b)"
  let ?b = "\<lparr>title = ''Spring bash'', \<dots> = (10 :: int, 20 :: int)\<rparr>"
  have a: "text' (statusProps (onRenderHeaderTitle ?c ?p 25 ?b)) = Completed"
    using onRenderHeaderTitle_status [of ?c ?p 25 ?b, THEN conjunct1] by simp
  have b: "text' (statusProps (onRenderHeaderTitle ?c ?p 15 ?b)) = InProgress"
    using onRenderHeaderTitle_status [of ?c ?p 15 ?b, THEN conjunct2, THEN conjunct1] by simp
  have c: "text' (statusProps (onRenderHeaderTitle ?c ?p 5 ?b)) = Scheduled"
    using onRenderHeaderTitle_status [of ?c ?p 5 ?b, THEN conjunct2, THEN conjunct2] by simp
  show ?thesis using a b c by simp
qed

text \<open>
  C7, as it is stated, says that for every key that is neither a work item field
  name nor \<open>Status\<close> the value is read from the bug bash item. The key \<open>Title\<close> on
  an accepted item with its work item supplied is such a key; the renderer returns
  its cell, and the value is the title of the work item, not the item's own.
\<close>

theorem onRenderBugBashItemCell_value_title_counterexample:
  "\<not> isWorkItemFieldName exampleImported (BugBashItemField BugBashItem_Title) \<and>
   BugBashItemField BugBashItem_Title \<noteq> BugBashItemField BugBashItem_Status \<and>
   isBugBashItemAccepted exampleImported promotedItem \<and>
   byKey promotedItem (BugBashItemField BugBashItem_Title) = JsString ''Crash on save'' \<and>
   onRenderBugBashItemCell exampleImported 0 () (BugBashItemField BugBashItem_Title) promotedItem
       (Some promotedWorkItem) ()
     = Inr \<lparr>cellValue = JsString ''Bug 42: crash on save'',
            cell = \<lparr>columnIndex = 0, tableColumn = (),
                    children = WorkItemTitleView (JsNumber 42) (JsString ''Bug 42: crash on save'')
                                 (JsString ''Bug'')\<rparr>\<rparr> \<and>
   JsString ''Bug 42: crash on save'' \<noteq> byKey promotedItem (BugBashItemField BugBashItem_Title)"
  by (simp add: onRenderBugBashItemCell_def Let_def exampleImported_def promotedItem_def
      promotedWorkItem_def)

text \<open>
  C7, amended. Whenever \<open>onRenderBugBashItemCell\<close> returns a cell: for a work item
  field name on an accepted item with \<open>acceptedWorkItem\<close> supplied the value is taken
  from the work item (\<open>acceptedWorkItem.fields[key]\<close>; for the key \<open>ID\<close>, the item's
  \<open>workItemId\<close>); for a work item field name on an item that is not accepted it is
  left \<open>undefined\<close>; for the key \<open>Title\<close> on an accepted item with
  \<open>acceptedWorkItem\<close> supplied it is the work item's title field; for every other key
  that is neither a work item field name nor \<open>Status\<close>, \<open>Title\<close> on an accepted
  item aside, it is read from the bug bash item itself. On an item that is not
  accepted the work item is not consulted: the call returns what it returns without
  one. This holds whatever the imported helpers, table and library functions are.
\<close>

theorem onRenderBugBashItemCell_value_sources:
  assumes "onRenderBugBashItemCell lib columnIndex' tableColumn' key bugBashItem acceptedWorkItem
             onTitleClick = Inr rendered"
  shows
    "(isWorkItemFieldName lib key \<and> isBugBashItemAccepted lib bugBashItem \<and>
      acceptedWorkItem = Some w \<longrightarrow>
        cellValue rendered
          = (if key = WorkItemField WorkItem_ID then workItemId bugBashItem else fields' w key)) \<and>
     (isWorkItemFieldName lib key \<and> \<not> isBugBashItemAccepted lib bugBashItem \<longrightarrow>
        cellValue rendered = JsUndefined) \<and>
     (\<not> isWorkItemFieldName lib key \<and> key = BugBashItemField BugBashItem_Title \<and>
      isBugBashItemAccepted lib bugBashItem \<and> acceptedWorkItem = Some w \<longrightarrow>
        cellValue rendered = fields' w (WorkItemField WorkItem_Title)) \<and>
     (\<not> isWorkItemFieldName lib key \<and> key \<noteq> BugBashItemField BugBashItem_Status \<and>
      \<not> (key = BugBashItemField BugBashItem_Title \<and> isBugBashItemAccepted lib bugBashItem) \<longrightarrow>
        cellValue rendered = byKey bugBashItem key) \<and>
     (\<not> isBugBashItemAccepted lib bugBashItem \<longrightarrow>
        onRenderBugBashItemCell lib columnIndex' tableColumn' key bugBashItem None onTitleClick
          = Inr rendered)"
proof -
  let ?assigned =
    "if isWorkItemFieldName lib key then
       (if isBugBashItemAccepted lib bugBashItem \<and> acceptedWorkItem \<noteq> None then
          (if key = WorkItemField WorkItem_ID then workItemId bugBashItem
           else (case acceptedWorkItem of Some w \<Rightarrow> fields' w key | None \<Rightarrow> JsUndefined))
        else JsUndefined)
     else if key = BugBashItemField BugBashItem_Title \<and> isBugBashItemAccepted lib bugBashItem \<and>
             acceptedWorkItem \<noteq> None then
       (case acceptedWorkItem of
          Some w \<Rightarrow> fields' w (WorkItemField WorkItem_Title)
        | None \<Rightarrow> JsUndefined)
     else if key \<noteq> BugBashItemField BugBashItem_Status then byKey bugBashItem key
     else JsUndefined"
  have v: "cellValue rendered = ?assigned"
    using assms
    by (auto simp: onRenderBugBashItemCell_def Let_def split: sum.splits if_splits option.splits)
  have indep: "\<not> isBugBashItemAccepted lib bugBashItem \<Longrightarrow>
      onRenderBugBashItemCell lib columnIndex' tableColumn' key bugBashItem None onTitleClick
        = onRenderBugBashItemCell lib columnIndex' tableColumn' key bugBashItem acceptedWorkItem
            onTitleClick"
    by (simp add: onRenderBugBashItemCell_def Let_def)
  show ?thesis
  proof (intro conjI impI)
    assume "isWorkItemFieldName lib key \<and> isBugBashItemAccepted lib bugBashItem \<and>
      acceptedWorkItem = Some w"
    then show "cellValue rendered
          = (if key = WorkItemField WorkItem_ID then workItemId bugBashItem else fields' w key)"
      using v by simp
  next
    assume "isWorkItemFieldName lib key \<and> \<not> isBugBashItemAccepted lib bugBashItem"
    then show "cellValue rendered = JsUndefined" using v by simp
  next
    assume "\<not> isWorkItemFieldName lib key \<and> key = BugBashItemField BugBashItem_Title \<and>
      isBugBashItemAccepted lib bugBashItem \<and> acceptedWorkItem = Some w"
    then show "cellValue rendered = fields' w (WorkItemField WorkItem_Title)" using v by auto
  next
    assume "\<not> isWorkItemFieldName lib key \<and> key \<noteq> BugBashItemField BugBashItem_Status \<and>
      \<not> (key = BugBashItemField BugBashItem_Title \<and> isBugBashItemAccepted lib bugBashItem)"
    then show "cellValue rendered = byKey bugBashItem key" using v by auto
  next
    assume "\<not> isBugBashItemAccepted lib bugBashItem"
    then show "onRenderBugBashItemCell lib columnIndex' tableColumn' key bugBashItem None
        onTitleClick = Inr rendered"
      using indep assms by simp
  qed
qed

text \<open>
  The theorem for the promoted and the pending item, with the imports as modelled:
  the state and the id of the promoted item come from its work item, the state of
  the pending item is \<open>undefined\<close>, the team of either comes from the item, and the
  title of the pending item is rendered the same with and without a work item.
\<close>

theorem onRenderBugBashItemCell_value_sources_witness:
  "onRenderBugBashItemCell exampleImported 2 () (WorkItemField WorkItem_State) promotedItem
       (Some promotedWorkItem) ()
     = Inr \<lparr>cellValue = JsString ''Active'',
            cell = \<lparr>columnIndex = 2, tableColumn = (),
                    children = WorkItemStateView (JsString ''Active'') (JsString ''Bug'')\<rparr>\<rparr> \<and>
   onRenderBugBashItemCell exampleImported 2 () (WorkItemField WorkItem_State) pendingItem
       (Some promotedWorkItem) ()
     = Inr \<lparr>cellValue = JsUndefined,
            cell = \<lparr>columnIndex = 2, tableColumn = (), children = TextTooltip JsUndefined\<rparr>\<rparr> \<and>
   onRenderBugBashItemCell exampleImported 3 () (BugBashItemField BugBashItem_TeamId) promotedItem
       (Some promotedWorkItem) ()
     = Inr \<lparr>cellValue = JsString ''team-1'',
            cell = \<lparr>columnIndex = 3, tableColumn = (),
                    children = TeamView (JsString ''team-1'')\<rparr>\<rparr> \<and>
   onRenderBugBashItemCell exampleImported 0 () (BugBashItemField BugBashItem_Title) pendingItem
       None ()
     = Inr \<lparr>cellValue = JsString ''Typo in dialog'',
            cell = \<lparr>columnIndex = 0, tableColumn = (),
                    children = AsyncLinkComponent ''bash-1'' (JsString ''item-2'')
                                 ''Typo in dialog'' ()\<rparr>\<rparr> \<and>
   cellValue \<lparr>cellValue = JsString ''Active'',
            cell = \<lparr>columnIndex = 2, tableColumn = (),
                    children = WorkItemStateView (JsString ''Active'') (JsString ''Bug'')
                      :: unit Element\<rparr>\<rparr>
     = fields' promotedWorkItem (WorkItemField WorkItem_State)"
proof -
  have acc: "isBugBashItemAccepted exampleImported promotedItem"
    by (simp add: exampleImported_def promotedItem_def)
  have pen: "\<not> isBugBashItemAccepted exampleImported pendingItem"
    by (simp add: exampleImported_def pendingItem_def)
  have wi: "isWorkItemFieldName exampleImported (WorkItemField WorkItem_State)"
    by (simp add: exampleImported_def)
  have a: "onRenderBugBashItemCell exampleImported 2 () (WorkItemField WorkItem_State) promotedItem
       (Some promotedWorkItem) ()
     = Inr \<lparr>cellValue = JsString ''Active'',
            cell = \<lparr>columnIndex = 2, tableColumn = (),
                    children = WorkItemStateView (JsString ''Active'') (JsString ''Bug'')\<rparr>\<rparr>"
    by (simp add: onRenderBugBashItemCell_def Let_def exampleImported_def promotedItem_def
        promotedWorkItem_def)
  have b: "onRenderBugBashItemCell exampleImported 2 () (WorkItemField WorkItem_State) pendingItem
       (Some promotedWorkItem) ()
     = Inr \<lparr>cellValue = JsUndefined,
            cell = \<lparr>columnIndex = 2, tableColumn = (), children = TextTooltip JsUndefined\<rparr>\<rparr>"
    by (simp add: onRenderBugBashItemCell_def Let_def exampleImported_def pendingItem_def)
  have c: "onRenderBugBashItemCell exampleImported 3 () (BugBashItemField BugBashItem_TeamId) promotedItem
       (Some promotedWorkItem) ()
     = Inr \<lparr>cellValue = JsString ''team-1'',
            cell = \<lparr>columnIndex = 3, tableColumn = (),
                    children = TeamView (JsString ''team-1'')\<rparr>\<rparr>"
    by (simp add: onRenderBugBashItemCell_def Let_def exampleImported_def promotedItem_def)
  have d0: "onRenderBugBashItemCell exampleImported 0 () (BugBashItemField BugBashItem_Title) pendingItem
       (Some promotedWorkItem) ()
     = Inr \<lparr>cellValue = JsString ''Typo in dialog'',
            cell = \<lparr>columnIndex = 0, tableColumn = (),
                    children = AsyncLinkComponent ''bash-1'' (JsString ''item-2'')
                                 ''Typo in dialog'' ()\<rparr>\<rparr>"
    by (simp add: onRenderBugBashItemCell_def Let_def exampleImported_def pendingItem_def)
  have d: "onRenderBugBashItemCell exampleImported 0 () (BugBashItemField BugBashItem_Title) pendingItem
       None ()
     = Inr \<lparr>cellValue = JsString ''Typo in dialog'',
            cell = \<lparr>columnIndex = 0, tableColumn = (),
                    children = AsyncLinkComponent ''bash-1'' (JsString ''item-2'')
                                 ''Typo in dialog'' ()\<rparr>\<rparr>"
    using onRenderBugBashItemCell_value_sources [OF d0, THEN conjunct2, THEN conjunct2,
        THEN conjunct2, THEN conjunct2, THEN mp, OF pen] .
  have e: "cellValue \<lparr>cellValue = JsString ''Active'',
            cell = \<lparr>columnIndex = 2, tableColumn = (),
                    children = WorkItemStateView (JsString ''Active'') (JsString ''Bug'')
                      :: unit Element\<rparr>\<rparr>
     = fields' promotedWorkItem (WorkItemField WorkItem_State)"
    using onRenderBugBashItemCell_value_sources [OF a, of promotedWorkItem, THEN conjunct1]
      acc wi
    by simp
  show ?thesis by (intro conjI a b c d e)
qed

text \<open>
  C9. The frame of \<open>activeWorkItemReducer\<close>: for an action that is not
  \<open>SetActiveWorkItem\<close> the result is the input state, or
  \<open>defaultActiveWorkItemState\<close> when the input is \<open>undefined\<close>; for
  \<open>SetActiveWorkItem\<close> each of the nine fields of the result is the payload's, and
  every other field of the state is as it was.
\<close>

theorem activeWorkItemReducer_frame:
  "((\<forall>payload. action \<noteq> SetActiveWorkItem payload) \<longrightarrow>
      activeWorkItemReducer defaultActiveWorkItemState state action
        = (case state of Some s \<Rightarrow> s | None \<Rightarrow> defaultActiveWorkItemState)) \<and>
   id' (activeWorkItemReducer defaultActiveWorkItemState state (SetActiveWorkItem payload))
     = id' payload \<and>
   rev' (activeWorkItemReducer defaultActiveWorkItemState state (SetActiveWorkItem payload))
     = rev' payload \<and>
   isNew (activeWorkItemReducer defaultActiveWorkItemState state (SetActiveWorkItem payload))
     = isNew payload \<and>
   links (activeWorkItemReducer defaultActiveWorkItemState state (SetActiveWorkItem payload))
     = links payload \<and>
   queryableFields (activeWorkItemReducer defaultActiveWorkItemState state (SetActiveWorkItem payload))
     = queryableFields payload \<and>
   sortableFields (activeWorkItemReducer defaultActiveWorkItemState state (SetActiveWorkItem payload))
     = sortableFields payload \<and>
   relationTypes (activeWorkItemReducer defaultActiveWorkItemState state (SetActiveWorkItem payload))
     = relationTypes payload \<and>
   project (activeWorkItemReducer defaultActiveWorkItemState state (SetActiveWorkItem payload))
     = project payload \<and>
   workItemTypeName (activeWorkItemReducer defaultActiveWorkItemState state (SetActiveWorkItem payload))
     = workItemTypeName payload \<and>
   IActiveWorkItemState.more
       (activeWorkItemReducer defaultActiveWorkItemState state (SetActiveWorkItem payload))
     = IActiveWorkItemState.more
         (case state of Some s \<Rightarrow> s | None \<Rightarrow> defaultActiveWorkItemState)"
  by (cases action) (simp_all add: activeWorkItemReducer_def Let_def)

text \<open>
  The theorem for an action of another type, on a state and on \<open>undefined\<close>, and
  for \<open>SetActiveWorkItem\<close>.
\<close>

theorem activeWorkItemReducer_frame_witness:
  "activeWorkItemReducer examplePayload (Some exampleState) (OtherAction ''SetSomethingElse'' :: IActiveWorkItemState ActiveWorkItemActions)
     = exampleState \<and>
   activeWorkItemReducer exampleState None (OtherAction ''SetSomethingElse'' :: IActiveWorkItemState ActiveWorkItemActions)
     = exampleState \<and>
   project (activeWorkItemReducer examplePayload (Some exampleState) (SetActiveWorkItem examplePayload))
     = JsString ''Fabrikam''"
proof -
  have n: "\<forall>payload. (OtherAction ''SetSomethingElse'' :: IActiveWorkItemState ActiveWorkItemActions)
      \<noteq> SetActiveWorkItem payload"
    by simp
  have a: "activeWorkItemReducer examplePayload (Some exampleState)
      (OtherAction ''SetSomethingElse'' :: IActiveWorkItemState ActiveWorkItemActions) = exampleState"
    using activeWorkItemReducer_frame
      [of "OtherAction ''SetSomethingElse''" examplePayload "Some exampleState",
       THEN conjunct1, THEN mp, OF n]
    by simp
  have b: "activeWorkItemReducer exampleState None
      (OtherAction ''SetSomethingElse'' :: IActiveWorkItemState ActiveWorkItemActions) = exampleState"
    using activeWorkItemReducer_frame
      [of "OtherAction ''SetSomethingElse''" exampleState None,
       THEN conjunct1, THEN mp, OF n]
    by simp
  have c: "project (activeWorkItemReducer examplePayload (Some exampleState)
      (SetActiveWorkItem examplePayload)) = JsString ''Fabrikam''"
    using activeWorkItemReducer_frame
      [of "OtherAction ''SetSomethingElse''" examplePayload "Some exampleState" examplePayload,
       THEN conjunct2, THEN conjunct2, THEN conjunct2, THEN conjunct2, THEN conjunct2,
       THEN conjunct2, THEN conjunct2, THEN conjunct2, THEN conjunct1]
    by (simp add: examplePayload_def)
  show ?thesis by (intro conjI a b c)
qed

end
